theory Spec2Isabelle
  imports Main
begin

unbundle bit_operations_syntax

section \<open>The Go library functions the package calls\<close>

text \<open>
  The package \<^verbatim>\<open>web\<close> is the file with \<^verbatim>\<open>New\<close>, \<^verbatim>\<open>Build\<close> and \<^verbatim>\<open>copyAssets\<close>
  (the site), the file with \<^verbatim>\<open>SiteFromContext\<close> (the context helpers) and
  \<^verbatim>\<open>main.go\<close>. It is written against Go's standard library. The pure library
  functions it calls (\<^verbatim>\<open>strings\<close>, \<^verbatim>\<open>path/filepath\<close>, \<^verbatim>\<open>encoding/hex\<close>,
  \<^verbatim>\<open>crypto/sha256\<close>) are modelled here from their documentation, for Unix paths
  (separator \<^verbatim>\<open>/\<close>, no volume names). Go strings and byte slices are sequences of
  bytes; so is \<^typ>\<open>string\<close>.
\<close>

type_synonym bytes = "char list"

subsection \<open>strings\<close>

definition TrimPrefix :: "string \<Rightarrow> string \<Rightarrow> string" where
  "TrimPrefix s prefix =
     (if take (length prefix) s = prefix then drop (length prefix) s else s)"

text \<open>\<^verbatim>\<open>strings.LastIndex\<close>: the index of the last instance of \<open>substr\<close> in \<open>s\<close>,
  or \<open>-1\<close>. The search runs from the last position at which \<open>substr\<close> fits down to 0.\<close>

fun lastIndexFrom :: "nat \<Rightarrow> string \<Rightarrow> string \<Rightarrow> int" where
  "lastIndexFrom 0 s substr = (if take (length substr) s = substr then 0 else - 1)"
| "lastIndexFrom (Suc i) s substr =
     (if take (length substr) (drop (Suc i) s) = substr then int (Suc i)
      else lastIndexFrom i s substr)"

definition LastIndex :: "string \<Rightarrow> string \<Rightarrow> int" where
  "LastIndex s substr =
     (if length s < length substr then - 1
      else lastIndexFrom (length s - length substr) s substr)"

fun joinSlash :: "string list \<Rightarrow> string" where
  "joinSlash [] = []"
| "joinSlash [e] = e"
| "joinSlash (e # es) = e @ ''/'' @ joinSlash es"

text \<open>The elements of a path between its separators.\<close>

fun splitSlash :: "string \<Rightarrow> string list" where
  "splitSlash [] = [[]]"
| "splitSlash (c # cs) =
     (if c = CHR ''/'' then [] # splitSlash cs
      else (case splitSlash cs of
              e # es \<Rightarrow> (c # e) # es
            | [] \<Rightarrow> [[c]]))"

subsection \<open>path/filepath\<close>

text \<open>\<^verbatim>\<open>filepath.Clean\<close> works on the elements between separators: empty elements and
  \<^verbatim>\<open>.\<close> are dropped, \<^verbatim>\<open>..\<close> removes the element before it when there is one that
  is not itself \<^verbatim>\<open>..\<close>, is dropped at the root, and is kept otherwise. The stack
  holds the elements kept so far, the last one first.\<close>

fun cleanElems :: "bool \<Rightarrow> string list \<Rightarrow> string list \<Rightarrow> string list" where
  "cleanElems rooted out [] = rev out"
| "cleanElems rooted out (e # es) =
     (if e = [] \<or> e = ''.'' then cleanElems rooted out es
      else if e = ''..'' then
        (case out of
           prev # below \<Rightarrow>
             if prev \<noteq> ''..'' then cleanElems rooted below es
             else if \<not> rooted then cleanElems rooted (e # out) es
             else cleanElems rooted out es
         | [] \<Rightarrow>
             if \<not> rooted then cleanElems rooted (e # out) es
             else cleanElems rooted out es)
      else cleanElems rooted (e # out) es)"

definition Clean :: "string \<Rightarrow> string" where
  "Clean path =
     (if path = [] then ''.''
      else let rooted = (hd path = CHR ''/'');
               out = (if rooted then ''/'' else []) @ joinSlash (cleanElems rooted [] (splitSlash path))
           in if out = [] then ''.'' else out)"

definition Join :: "string list \<Rightarrow> string" where
  "Join elem =
     (case dropWhile (\<lambda>e. e = []) elem of
        [] \<Rightarrow> []
      | e # es \<Rightarrow> Clean (joinSlash (e # es)))"

definition Dir :: "string \<Rightarrow> string" where
  "Dir path = Clean (rev (dropWhile (\<lambda>c. c \<noteq> CHR ''/'') (rev path)))"

definition Base :: "string \<Rightarrow> string" where
  "Base path =
     (if path = [] then ''.''
      else let stripped = rev (dropWhile (\<lambda>c. c = CHR ''/'') (rev path));
               last_elem = rev (takeWhile (\<lambda>c. c \<noteq> CHR ''/'') (rev stripped))
           in if last_elem = [] then ''/'' else last_elem)"

subsection \<open>encoding/hex\<close>

definition hexdigit :: "nat \<Rightarrow> char" where
  "hexdigit n = ''0123456789abcdef'' ! n"

definition EncodeToString :: "bytes \<Rightarrow> string" where
  "EncodeToString src =
     concat (map (\<lambda>b. [hexdigit (of_char b div 16), hexdigit (of_char b mod 16)]) src)"

subsection \<open>crypto/sha256\<close>

text \<open>SHA-256 as \<^verbatim>\<open>sha256.Sum256\<close> computes it (FIPS 180-4). A \<^verbatim>\<open>uint32\<close> is a
  natural number below \<open>2 ^ 32\<close>; the additions wrap around, written out in \<open>add32\<close>.
  The round constants and the initial hash value are written in decimal.\<close>

type_synonym uint32 = nat

definition K256 :: "uint32 list" where
  "K256 = [
    1116352408, 1899447441, 3049323471, 3921009573, 961987163, 1508970993, 2453635748, 2870763221,
    3624381080, 310598401, 607225278, 1426881987, 1925078388, 2162078206, 2614888103, 3248222580,
    3835390401, 4022224774, 264347078, 604807628, 770255983, 1249150122, 1555081692, 1996064986,
    2554220882, 2821834349, 2952996808, 3210313671, 3336571891, 3584528711, 113926993, 338241895,
    666307205, 773529912, 1294757372, 1396182291, 1695183700, 1986661051, 2177026350, 2456956037,
    2730485921, 2820302411, 3259730800, 3345764771, 3516065817, 3600352804, 4094571909, 275423344,
    430227734, 506948616, 659060556, 883997877, 958139571, 1322822218, 1537002063, 1747873779,
    1955562222, 2024104815, 2227730452, 2361852424, 2428436474, 2756734187, 3204031479, 3329325298]"

definition init256 :: "uint32 list" where
  "init256 = [1779033703, 3144134277, 1013904242, 2773480762,
              1359893119, 2600822924, 528734635, 1541459225]"

definition add32 :: "uint32 \<Rightarrow> uint32 \<Rightarrow> uint32" where
  "add32 x y = (x + y) mod 2 ^ 32"

definition not32 :: "uint32 \<Rightarrow> uint32" where
  "not32 x = x XOR 4294967295"

definition rotr :: "nat \<Rightarrow> uint32 \<Rightarrow> uint32" where
  "rotr n x = x div 2 ^ n + (x mod 2 ^ n) * 2 ^ (32 - n)"

definition bsig0 :: "uint32 \<Rightarrow> uint32" where
  "bsig0 x = rotr 2 x XOR rotr 13 x XOR rotr 22 x"

definition bsig1 :: "uint32 \<Rightarrow> uint32" where
  "bsig1 x = rotr 6 x XOR rotr 11 x XOR rotr 25 x"

definition ssig0 :: "uint32 \<Rightarrow> uint32" where
  "ssig0 x = rotr 7 x XOR rotr 18 x XOR x div 2 ^ 3"

definition ssig1 :: "uint32 \<Rightarrow> uint32" where
  "ssig1 x = rotr 17 x XOR rotr 19 x XOR x div 2 ^ 10"

text \<open>The sixteen big-endian words of a 64-byte block.\<close>

fun words :: "bytes \<Rightarrow> uint32 list" where
  "words (a # b # c # d # p) =
     (of_char a * 2 ^ 24 + of_char b * 2 ^ 16 + of_char c * 2 ^ 8 + of_char d) # words p"
| "words _ = []"

text \<open>The message schedule, kept in reverse while it grows: the head of \<open>w\<close> is
  \<open>w[i-1]\<close>, so \<open>w[i-2]\<close>, \<open>w[i-7]\<close>, \<open>w[i-15]\<close> and \<open>w[i-16]\<close> are at 1, 6, 14, 15.\<close>

definition nextWord :: "uint32 list \<Rightarrow> uint32 list" where
  "nextWord w = add32 (add32 (add32 (ssig1 (w ! 1)) (w ! 6)) (ssig0 (w ! 14))) (w ! 15) # w"

definition schedule :: "bytes \<Rightarrow> uint32 list" where
  "schedule p = rev (fold (\<lambda>i w. nextWord w) [16..<64] (rev (words p)))"

fun round256 :: "uint32 \<times> uint32 \<Rightarrow> uint32 list \<Rightarrow> uint32 list" where
  "round256 (k, w) [a, b, c, d, e, f, g, h] =
     (let t1 = add32 (add32 (add32 (add32 h (bsig1 e)) ((e AND f) XOR (not32 e AND g))) k) w;
          t2 = add32 (bsig0 a) ((a AND b) XOR (a AND c) XOR (b AND c))
      in [add32 t1 t2, a, b, c, add32 d t1, e, f, g])"
| "round256 _ hs = hs"

definition block :: "uint32 list \<Rightarrow> bytes \<Rightarrow> uint32 list" where
  "block hs p = map2 add32 hs (fold round256 (zip K256 (schedule p)) hs)"

function blocks :: "uint32 list \<Rightarrow> bytes \<Rightarrow> uint32 list" where
  "blocks hs p =
     (if length p < 64 then hs else blocks (block hs (take 64 p)) (drop 64 p))"
  by pat_completeness auto
termination
  by (relation "measure (\<lambda>(hs, p). length p)") auto

declare blocks.simps [simp del]

definition PutUint32 :: "uint32 \<Rightarrow> bytes" where
  "PutUint32 v =
     [char_of (v div 2 ^ 24), char_of (v div 2 ^ 16), char_of (v div 2 ^ 8), char_of v]"

definition PutUint64 :: "nat \<Rightarrow> bytes" where
  "PutUint64 v =
     [char_of (v div 2 ^ 56), char_of (v div 2 ^ 48), char_of (v div 2 ^ 40),
      char_of (v div 2 ^ 32), char_of (v div 2 ^ 24), char_of (v div 2 ^ 16),
      char_of (v div 2 ^ 8), char_of v]"

text \<open>Padding: the byte \<^verbatim>\<open>0x80\<close>, zero bytes up to 56 modulo 64, and the length of
  the message in bits as a \<^verbatim>\<open>uint64\<close>.\<close>

definition pad :: "bytes \<Rightarrow> bytes" where
  "pad m = m @ [char_of (128 :: nat)]
             @ replicate ((119 - length m mod 64) mod 64) (char_of (0 :: nat))
             @ PutUint64 (8 * length m mod 2 ^ 64)"

definition Sum256 :: "bytes \<Rightarrow> bytes" where
  "Sum256 data = concat (map PutUint32 (blocks init256 (pad data)))"


section \<open>Errors, log lines and the operating system\<close>

text \<open>Go errors are values. \<^verbatim>\<open>fmt.Errorf\<close>, \<^verbatim>\<open>log.Printf\<close> and \<^verbatim>\<open>fmt.Sprintf\<close>
  are kept as the format with its arguments, so that a wrapped error (\<^verbatim>\<open>%w\<close>) still
  holds its cause.\<close>

datatype Errno = ENOENT | EACCES | EEXIST | ENOTDIR | EISDIR

datatype error = PathError string string Errno | ExitError nat | Errorf string "arg list"
  and arg = Str string | Err error

datatype logline = Printf string "arg list"

datatype panic = Sprintf string "arg list"

text \<open>\<^verbatim>\<open>os.IsNotExist\<close> looks inside the errors of package \<^verbatim>\<open>os\<close> only, not inside
  an error made by \<^verbatim>\<open>fmt.Errorf\<close>.\<close>

fun IsNotExist :: "error \<Rightarrow> bool" where
  "IsNotExist (PathError op path ENOENT) = True"
| "IsNotExist _ = False"

datatype FileInfo = FileInfo (IsDir: bool)

datatype File = File (Name: string)

text \<open>A \<^verbatim>\<open>context.Context\<close> is the background context or one made by
  \<^verbatim>\<open>contextWithSite\<close>, which stores the pointer to the site under \<^verbatim>\<open>contextKeySite\<close>.
  Cancellation is not modelled.\<close>

datatype Context = Background | WithSite Context

text \<open>The system calls and processes the package uses, over a state of the world \<open>'w\<close>
  (the file system, the environment, the processes). Every theorem about \<^verbatim>\<open>Build\<close>
  below holds for every such record: any call may fail or succeed, with any effect.
  The permission arguments (\<^verbatim>\<open>0755\<close>, \<^verbatim>\<open>0644\<close>) are constants of the source and are left
  out. \<open>RunCommand ctx shell args\<close> is \<^verbatim>\<open>exec.CommandContext(ctx, shell, args...)\<close>
  with the standard streams of the process, followed by \<^verbatim>\<open>Run\<close>.\<close>

record 'w OS =
  RemoveAll :: "string \<Rightarrow> 'w \<Rightarrow> error option \<times> 'w"
  MkdirAll :: "string \<Rightarrow> 'w \<Rightarrow> error option \<times> 'w"
  Stat :: "string \<Rightarrow> 'w \<Rightarrow> error + FileInfo"
  Lstat :: "string \<Rightarrow> 'w \<Rightarrow> error + FileInfo"
  ReadDirNames :: "string \<Rightarrow> 'w \<Rightarrow> error + string list"
  ReadFile :: "string \<Rightarrow> 'w \<Rightarrow> error + bytes"
  WriteFile :: "string \<Rightarrow> bytes \<Rightarrow> 'w \<Rightarrow> error option \<times> 'w"
  Create :: "string \<Rightarrow> 'w \<Rightarrow> (error + File) \<times> 'w"
  Open :: "string \<Rightarrow> 'w \<Rightarrow> (error + File) \<times> 'w"
  Copy :: "File \<Rightarrow> File \<Rightarrow> 'w \<Rightarrow> error option \<times> 'w"
  Close :: "File \<Rightarrow> 'w \<Rightarrow> error option \<times> 'w"
  Getenv :: "string \<Rightarrow> 'w \<Rightarrow> string"
  RunCommand :: "Context \<Rightarrow> string \<Rightarrow> string list \<Rightarrow> 'w \<Rightarrow> error option \<times> 'w"

section \<open>The site\<close>

text \<open>
  \<^verbatim>\<open>Site\<close> is a struct behind a pointer, and its callbacks are closures that receive
  the pointer (a configurer as its argument, a renderer through the context). A HOL
  function cannot take the record it is stored in, so the struct is split: \<open>SiteData\<close>
  holds the fields that are plain data, which a callback is given as they are at the
  call, and \<open>Site\<close> adds the two fields that hold callbacks. A configurer answers
  with the calls it makes on the site, in order (\<open>SiteCall\<close>), its error and the world
  it leaves. A configurer may enqueue itself, so the type is coinductive.
  Callbacks that panic or do not return are outside the model, and so is a callback
  that calls \<^verbatim>\<open>Build\<close> or \<^verbatim>\<open>Serve\<close>, or a renderer that changes the site.
\<close>

record SiteData =
  OutputDir :: string
  PublicDir :: string
  AssetsDir :: string
  assets :: "string \<rightharpoonup> string"
  commands :: "string list"

type_synonym 'w Renderer = "Context \<Rightarrow> SiteData \<Rightarrow> File \<Rightarrow> 'w \<Rightarrow> error option \<times> 'w"

datatype ('w, 'c) SiteCall =
    CallConfigure 'c
  | CallRender string "'w Renderer"
  | CallRun string
  | SetOutputDir string
  | SetPublicDir string
  | SetAssetsDir string

codatatype 'w Configurer =
  ConfigureFunc (body: "Context \<Rightarrow> SiteData \<Rightarrow> 'w \<Rightarrow>
    (('w, 'w Configurer) SiteCall list \<times> error option) \<times> 'w")

record 'w Site = SiteData +
  configurers :: "'w Configurer list"
  renderers :: "string \<rightharpoonup> 'w Renderer"

definition Configure :: "'w Configurer \<Rightarrow> 'w Site \<Rightarrow> 'w Site" where
  "Configure configurer s = s\<lparr>configurers := configurers s @ [configurer]\<rparr>"

definition Render :: "string \<Rightarrow> 'w Renderer \<Rightarrow> 'w Site \<Rightarrow> 'w Site" where
  "Render path renderer s = s\<lparr>renderers := (renderers s)(path \<mapsto> renderer)\<rparr>"

definition Run :: "string \<Rightarrow> 'w Site \<Rightarrow> 'w Site" where
  "Run command s = s\<lparr>commands := commands s @ [command]\<rparr>"

fun perform :: "('w, 'w Configurer) SiteCall \<Rightarrow> 'w Site \<Rightarrow> 'w Site" where
  "perform (CallConfigure configurer) s = Configure configurer s"
| "perform (CallRender path renderer) s = Render path renderer s"
| "perform (CallRun command) s = Run command s"
| "perform (SetOutputDir d) s = s\<lparr>OutputDir := d\<rparr>"
| "perform (SetPublicDir d) s = s\<lparr>PublicDir := d\<rparr>"
| "perform (SetAssetsDir d) s = s\<lparr>AssetsDir := d\<rparr>"

text \<open>\<^verbatim>\<open>configurer.Configure(ctx, s)\<close>: the configurer runs on the site as it is and
  its calls take effect on it.\<close>

definition invoke ::
  "'w Configurer \<Rightarrow> Context \<Rightarrow> 'w Site \<Rightarrow> 'w \<Rightarrow> error option \<times> 'w Site \<times> 'w" where
  "invoke configurer ctx s w =
     (case body configurer ctx (SiteData.truncate s) w of
        ((calls, err), w') \<Rightarrow> (err, fold perform calls s, w'))"

subsection \<open>New\<close>

text \<open>The loop of \<^verbatim>\<open>New\<close>. It need not end; \<open>None\<close> is a construction that never
  returns. \<open>Inl err\<close> is the return \<^verbatim>\<open>nil, err\<close>, \<open>Inr s\<close> the return \<^verbatim>\<open>s, nil\<close>.\<close>

partial_function (option) drain ::
  "Context \<Rightarrow> 'w Site \<Rightarrow> 'w \<Rightarrow> ((error + 'w Site) \<times> 'w) option" where
  "drain ctx s w =
     (case configurers s of
        [] \<Rightarrow> Some (Inr s, w)
      | configurer # rest \<Rightarrow>
          (case invoke configurer ctx (s\<lparr>configurers := rest\<rparr>) w of
             (Some err, s', w') \<Rightarrow> Some (Inl err, w')
           | (None, s', w') \<Rightarrow> drain ctx s' w'))"

definition New ::
  "Context \<Rightarrow> 'w Configurer \<Rightarrow> 'w \<Rightarrow> ((error + 'w Site) \<times> 'w) option" where
  "New ctx initialConfigurer w =
     drain ctx
       \<lparr>OutputDir = ''output'', PublicDir = ''public'', AssetsDir = ''assets'',
        assets = Map.empty, commands = [],
        configurers = [initialConfigurer], renderers = Map.empty\<rparr> w"

subsection \<open>Asset\<close>

text \<open>On a missing name the lookup has already overwritten \<^verbatim>\<open>name\<close> with the zero
  value, so the message of the panic quotes the empty string.\<close>

definition Asset :: "'a SiteData_scheme \<Rightarrow> string \<Rightarrow> panic + string" where
  "Asset s name =
     (case assets s name of
        None \<Rightarrow> Inl (Sprintf ''asset %q not found'' [Str []])
      | Some name' \<Rightarrow> Inr (''/'' @ AssetsDir s @ ''/'' @ name'))"


section \<open>Build\<close>

text \<open>The state of a build is the site, the lines the package has logged so far and
  the world.\<close>

type_synonym 'w state = "'w Site \<times> logline list \<times> 'w"

subsection \<open>filepath.Walk\<close>

text \<open>
  \<^verbatim>\<open>filepath.Walk\<close> visits the tree in depth-first order, a directory before its
  entries, and reads the world as it is when it gets to a path: the callback may have
  changed it. The stack holds the paths still to visit. A path that \<^verbatim>\<open>Lstat\<close> cannot
  read is given to the callback with the error and \<open>nilInfo\<close>, a directory whose names
  cannot be read with its info and the error; the first error a callback returns ends
  the walk. (None of the callbacks here returns \<^verbatim>\<open>SkipDir\<close>.) The tree need not be
  finite in every world, so the walk may not return.
\<close>

definition nilInfo :: FileInfo where
  "nilInfo = FileInfo False"

type_synonym 'w WalkFunc =
  "string \<Rightarrow> FileInfo \<Rightarrow> error option \<Rightarrow> 'w state \<Rightarrow> error option \<times> 'w state"

partial_function (option) walk ::
  "'w OS \<Rightarrow> 'w WalkFunc \<Rightarrow> string list \<Rightarrow> 'w state \<Rightarrow> (error option \<times> 'w state) option" where
  "walk os fn stack st =
     (case stack of
        [] \<Rightarrow> Some (None, st)
      | path # rest \<Rightarrow>
          (case Lstat os path (snd (snd st)) of
             Inl err \<Rightarrow>
               (case fn path nilInfo (Some err) st of
                  (Some e, st') \<Rightarrow> Some (Some e, st')
                | (None, st') \<Rightarrow> walk os fn rest st')
           | Inr info \<Rightarrow>
               if \<not> IsDir info then
                 (case fn path info None st of
                    (Some e, st') \<Rightarrow> Some (Some e, st')
                  | (None, st') \<Rightarrow> walk os fn rest st')
               else
                 (case ReadDirNames os path (snd (snd st)) of
                    Inl err \<Rightarrow>
                      (case fn path info (Some err) st of
                         (Some e, st') \<Rightarrow> Some (Some e, st')
                       | (None, st') \<Rightarrow> walk os fn rest st')
                  | Inr names \<Rightarrow>
                      (case fn path info None st of
                         (Some e, st') \<Rightarrow> Some (Some e, st')
                       | (None, st') \<Rightarrow>
                           walk os fn (map (\<lambda>name. Join [path, name]) names @ rest) st'))))"

definition Walk ::
  "'w OS \<Rightarrow> string \<Rightarrow> 'w WalkFunc \<Rightarrow> 'w state \<Rightarrow> (error option \<times> 'w state) option" where
  "Walk os root fn st = walk os fn [root] st"

subsection \<open>runCommands\<close>

fun runCommandsLoop ::
  "'w OS \<Rightarrow> Context \<Rightarrow> string \<Rightarrow> string list \<Rightarrow> logline list \<Rightarrow> 'w
    \<Rightarrow> error option \<times> logline list \<times> 'w" where
  "runCommandsLoop os ctx shell [] lg w = (None, lg, w)"
| "runCommandsLoop os ctx shell (command # rest) lg w =
     (let lg' = lg @ [Printf ''running %q\<newline>'' [Str command]]
      in case RunCommand os ctx shell [''-c'', command] w of
           (Some err, w') \<Rightarrow> (Some (Errorf ''%q: %w\<newline>'' [Str command, Err err]), lg', w')
         | (None, w') \<Rightarrow> runCommandsLoop os ctx shell rest lg' w')"

definition runCommands ::
  "'w OS \<Rightarrow> Context \<Rightarrow> 'w Site \<Rightarrow> logline list \<Rightarrow> 'w \<Rightarrow> error option \<times> logline list \<times> 'w" where
  "runCommands os ctx s lg w =
     (let shell = Getenv os ''SHELL'' w;
          shell = (if shell = [] then ''sh'' else shell)
      in runCommandsLoop os ctx shell (commands s) lg w)"

subsection \<open>copyAssets\<close>

text \<open>The new file name of an asset, from its bytes and its path (the \<^verbatim>\<open>var\<close> block
  and the \<^verbatim>\<open>if\<close> after it). \<^verbatim>\<open>fileName[0:index]\<close> and \<^verbatim>\<open>fileName[index:]\<close> are in
  range, since \<open>index\<close> is an index of \<open>fileName\<close>; so is \<^verbatim>\<open>[:7]\<close>, the encoded sum
  having 64 characters.\<close>

definition fingerprint :: "bytes \<Rightarrow> string \<Rightarrow> string" where
  "fingerprint data path =
     (let sum = Sum256 data;
          digest = take 7 (EncodeToString sum);
          fileName = Base path;
          index = LastIndex fileName ''.''
      in if index \<noteq> - 1
         then take (nat index) fileName @ ''.'' @ digest @ drop (nat index) fileName
         else fileName @ ''.'' @ digest)"

text \<open>The function \<^verbatim>\<open>copyAssets\<close> gives to \<^verbatim>\<open>filepath.Walk\<close>. It reads and writes the
  site through the pointer, so it takes the site of the state.\<close>

definition copyAssetsFn :: "'w OS \<Rightarrow> 'w WalkFunc" where
  "copyAssetsFn os path info err st =
     (case st of (s, lg, w) \<Rightarrow>
      (case err of
         Some e \<Rightarrow> (Some e, st)
       | None \<Rightarrow>
           if IsDir info then
             (case MkdirAll os (Join [OutputDir s, path]) w of (r, w') \<Rightarrow> (r, s, lg, w'))
           else
             (let name = TrimPrefix path (AssetsDir s @ ''/'');
                  lg' = lg @ [Printf ''copying asset %s\<newline>'' [Str name]]
              in case ReadFile os path w of
                   Inl e \<Rightarrow> (Some e, s, lg', w)
                 | Inr data \<Rightarrow>
                     (let fileName = fingerprint data path;
                          destPath = Join [OutputDir s, Dir path, fileName]
                      in case WriteFile os destPath data w of
                           (Some e, w') \<Rightarrow> (Some e, s, lg', w')
                         | (None, w') \<Rightarrow>
                             (None,
                              s\<lparr>assets := (assets s)(name \<mapsto> Join [Dir name, fileName])\<rparr>,
                              lg', w')))))"

definition copyAssets :: "'w OS \<Rightarrow> 'w state \<Rightarrow> (error option \<times> 'w state) option" where
  "copyAssets os st =
     (case st of (s, lg, w) \<Rightarrow>
        if (case Stat os (AssetsDir s) w of Inl err \<Rightarrow> IsNotExist err | Inr info \<Rightarrow> False)
        then Some (None, st)
        else Walk os (AssetsDir s) (copyAssetsFn os) st)"

subsection \<open>copyPublicFiles\<close>

definition copyPublicFilesFn :: "'w OS \<Rightarrow> 'w WalkFunc" where
  "copyPublicFilesFn os path info err st =
     (case st of (s, lg, w) \<Rightarrow>
      (case err of
         Some e \<Rightarrow> (Some e, st)
       | None \<Rightarrow>
           if path = PublicDir s then (None, st)
           else
             (let destPath = OutputDir s @ ''/'' @ TrimPrefix path (PublicDir s @ ''/'')
              in if IsDir info then
                   (case MkdirAll os destPath w of (r, w') \<Rightarrow> (r, s, lg, w'))
                 else
                   (case Create os destPath w of
                      (Inl e, w1) \<Rightarrow> (Some e, s, lg, w1)
                    | (Inr dest, w1) \<Rightarrow>
                   (case Open os path w1 of
                      (Inl e, w2) \<Rightarrow> (Some e, s, lg, snd (Close os dest w2))
                    | (Inr src, w2) \<Rightarrow>
                   (case Copy os dest src w2 of
                      (Some e, w3) \<Rightarrow>
                        (Some e, s, lg, snd (Close os src (snd (Close os dest w3))))
                    | (None, w3) \<Rightarrow>
                   (case Close os dest w3 of
                      (Some e, w4) \<Rightarrow> (Some e, s, lg, snd (Close os src w4))
                    | (None, w4) \<Rightarrow>
                   (case Close os src w4 of
                      (Some e, w5) \<Rightarrow> (Some e, s, lg, w5)
                    | (None, w5) \<Rightarrow> (None, s, lg, w5)))))))))"

definition copyPublicFiles :: "'w OS \<Rightarrow> 'w state \<Rightarrow> (error option \<times> 'w state) option" where
  "copyPublicFiles os st =
     (case st of (s, lg, w) \<Rightarrow>
        if (case Stat os (PublicDir s) w of Inl err \<Rightarrow> IsNotExist err | Inr info \<Rightarrow> False)
        then Some (None, st)
        else Walk os (PublicDir s) (copyPublicFilesFn os) st)"

subsection \<open>render\<close>

definition render ::
  "'w OS \<Rightarrow> Context \<Rightarrow> 'w Site \<Rightarrow> string \<Rightarrow> 'w Renderer \<Rightarrow> logline list \<Rightarrow> 'w
    \<Rightarrow> error option \<times> logline list \<times> 'w" where
  "render os ctx s file renderer lg w =
     (let lg' = lg @ [Printf ''rendering %s\<newline>'' [Str file]];
          out = OutputDir s @ ''/'' @ file
      in case MkdirAll os (Dir out) w of
           (Some err, w1) \<Rightarrow> (Some err, lg', w1)
         | (None, w1) \<Rightarrow>
      (case Create os out w1 of
           (Inl err, w2) \<Rightarrow> (Some err, lg', w2)
         | (Inr f, w2) \<Rightarrow>
      (case renderer ctx (SiteData.truncate s) f w2 of
           (Some err, w3) \<Rightarrow> (Some err, lg', snd (Close os f w3))
         | (None, w3) \<Rightarrow>
      (case Close os f w3 of
           (Some err, w4) \<Rightarrow> (Some err, lg', w4)
         | (None, w4) \<Rightarrow> (None, lg', w4)))))"

subsection \<open>Build\<close>

text \<open>\<^verbatim>\<open>range\<close> over a Go map visits every key once, in an order the runtime chooses.
  \<open>ord\<close> is that order; a key that is not in the map is not visited.\<close>

definition rangeMap :: "string list \<Rightarrow> (string \<rightharpoonup> 'a) \<Rightarrow> (string \<times> 'a) list" where
  "rangeMap ord m = concat (map (\<lambda>k. case m k of None \<Rightarrow> [] | Some v \<Rightarrow> [(k, v)]) ord)"

text \<open>The loop at the end of \<^verbatim>\<open>Build\<close>.\<close>

fun renderLoop ::
  "'w OS \<Rightarrow> Context \<Rightarrow> 'w Site \<Rightarrow> (string \<times> 'w Renderer) list \<Rightarrow> logline list \<Rightarrow> 'w
    \<Rightarrow> logline list \<times> 'w" where
  "renderLoop os ctx s [] lg w = (lg, w)"
| "renderLoop os ctx s ((file, renderer) # rest) lg w =
     (case render os ctx s file renderer lg w of
        (Some err, lg', w') \<Rightarrow>
          renderLoop os ctx s rest
            (lg' @ [Printf ''error rendering %s: %s\<newline>'' [Str file, Err err]]) w'
      | (None, lg', w') \<Rightarrow> renderLoop os ctx s rest lg' w')"

text \<open>\<open>None\<close> is a build that does not return (a walk without end); otherwise the
  result is the error \<^verbatim>\<open>Build\<close> returns and the state it leaves.\<close>

definition Build ::
  "'w OS \<Rightarrow> string list \<Rightarrow> Context \<Rightarrow> 'w state \<Rightarrow> (error option \<times> 'w state) option" where
  "Build os ord ctx st =
     (case st of (s, lg, w) \<Rightarrow>
      (case RemoveAll os (OutputDir s) w of
         (Some err, w1) \<Rightarrow> Some (Some (Errorf ''remove output dir: %w'' [Err err]), s, lg, w1)
       | (None, w1) \<Rightarrow>
      (case MkdirAll os (OutputDir s) w1 of
         (Some err, w2) \<Rightarrow> Some (Some (Errorf ''create output dir: %w'' [Err err]), s, lg, w2)
       | (None, w2) \<Rightarrow>
      (case runCommands os ctx s lg w2 of
         (Some err, lg3, w3) \<Rightarrow> Some (Some (Errorf ''run commands: %w'' [Err err]), s, lg3, w3)
       | (None, lg3, w3) \<Rightarrow>
      (case copyAssets os (s, lg3, w3) of
         None \<Rightarrow> None
       | Some (Some err, st4) \<Rightarrow> Some (Some (Errorf ''copy assets: %w'' [Err err]), st4)
       | Some (None, st4) \<Rightarrow>
      (case copyPublicFiles os st4 of
         None \<Rightarrow> None
       | Some (Some err, st5) \<Rightarrow> Some (Some (Errorf ''copy public files: %w'' [Err err]), st5)
       | Some (None, s5, lg5, w5) \<Rightarrow>
           (case renderLoop os ctx s5 (rangeMap ord (renderers s5)) lg5 w5 of
              (lg6, w6) \<Rightarrow> Some (None, s5, lg6, w6))))))))"


section \<open>The configuration queue as generations\<close>

text \<open>The specification describes the queue by generations: the steps queued together
  run one after the other, each once, and what they enqueue forms the next generation.
  \<open>runAll\<close> runs a list of steps that way, on a site whose queue only collects what
  they enqueue.\<close>

fun runAll ::
  "'w Configurer list \<Rightarrow> Context \<Rightarrow> 'w Site \<Rightarrow> 'w \<Rightarrow> (error + 'w Site) \<times> 'w" where
  "runAll [] ctx s w = (Inr s, w)"
| "runAll (configurer # rest) ctx s w =
     (case invoke configurer ctx s w of
        (Some err, s', w') \<Rightarrow> (Inl err, w')
      | (None, s', w') \<Rightarrow> runAll rest ctx s' w')"

text \<open>The steps a list of calls enqueues, in order.\<close>

fun enqueued :: "('w, 'w Configurer) SiteCall list \<Rightarrow> 'w Configurer list" where
  "enqueued [] = []"
| "enqueued (CallConfigure configurer # calls) = configurer # enqueued calls"
| "enqueued (call # calls) = enqueued calls"

text \<open>A finite pattern of steps: each step does something to the world, enqueues a
  fixed list of further steps and succeeds. \<open>generations\<close> lists the steps of a forest
  generation by generation.\<close>

datatype 'w Step = Step (action: "'w \<Rightarrow> 'w") (enqueues: "'w Step list")

fun stepConfigurer :: "'w Step \<Rightarrow> 'w Configurer" where
  "stepConfigurer (Step f ts) =
     ConfigureFunc (\<lambda>ctx v w. ((map (\<lambda>t. CallConfigure (stepConfigurer t)) ts, None), f w))"

fun weight :: "'w Step \<Rightarrow> nat" where
  "weight (Step f ts) = Suc (sum_list (map weight ts))"

lemma weight_enqueues: "sum_list (map weight (enqueues t)) < weight t"
  by (cases t) simp

lemma weight_generation:
  "ts \<noteq> [] \<Longrightarrow> sum_list (map weight (concat (map enqueues ts))) < sum_list (map weight ts)"
proof (induction ts)
  case Nil
  then show ?case by simp
next
  case (Cons t ts)
  show ?case
  proof (cases "ts = []")
    case True
    then show ?thesis using weight_enqueues [of t] by simp
  next
    case False
    then show ?thesis using Cons.IH weight_enqueues [of t] by simp
  qed
qed

function generations :: "'w Step list \<Rightarrow> 'w Step list" where
  "generations ts = (if ts = [] then [] else ts @ generations (concat (map enqueues ts)))"
  by pat_completeness auto
termination
  by (relation "measure (\<lambda>ts. sum_list (map weight ts))") (auto simp: weight_generation)

declare generations.simps [simp del]

text \<open>A step that enqueues itself again, as a Go closure that passes itself to
  \<^verbatim>\<open>s.Configure\<close> does.\<close>

primcorec forever :: "'w Configurer" where
  "forever = ConfigureFunc (\<lambda>ctx v w. (([CallConfigure forever], None), w))"

section \<open>An operating system in memory\<close>

text \<open>A small file system to run the package on: a list of the paths that exist
  (relative paths, in the form \<^verbatim>\<open>Clean\<close> gives them) with what is there. A path in
  \<open>denied\<close> cannot be created, written or removed. The command \<^verbatim>\<open>false\<close> exits
  with status 1 and every other command with 0; \<open>ran\<close> records the command lines.\<close>

datatype node = DirNode | FileNode bytes

record mem =
  nodes :: "(string \<times> node) list"
  shellenv :: string
  denied :: "string list"
  ran :: "string list list"

fun put :: "string \<Rightarrow> node \<Rightarrow> (string \<times> node) list \<Rightarrow> (string \<times> node) list" where
  "put p n [] = [(p, n)]"
| "put p n ((q, m) # rest) = (if q = p then (p, n) # rest else (q, m) # put p n rest)"

definition node_at :: "mem \<Rightarrow> string \<Rightarrow> node option" where
  "node_at m p = map_of (nodes m) (Clean p)"

definition under :: "string \<Rightarrow> string \<Rightarrow> bool" where
  "under d q = (take (Suc (length d)) q = d @ ''/'')"

fun ancestors :: "string \<Rightarrow> string list \<Rightarrow> string list" where
  "ancestors pre [] = []"
| "ancestors pre (c # cs) =
     (let d = (if pre = [] then c else pre @ ''/'' @ c) in d # ancestors d cs)"

definition mem_RemoveAll :: "string \<Rightarrow> mem \<Rightarrow> error option \<times> mem" where
  "mem_RemoveAll p m =
     (if node_at m p = None then (None, m)
      else if Clean p \<in> set (denied m) then (Some (PathError ''unlinkat'' p EACCES), m)
      else (None, m\<lparr>nodes := filter (\<lambda>(q, n). q \<noteq> Clean p \<and> \<not> under (Clean p) q) (nodes m)\<rparr>))"

definition mem_MkdirAll :: "string \<Rightarrow> mem \<Rightarrow> error option \<times> mem" where
  "mem_MkdirAll p m =
     (let dirs = ancestors [] (splitSlash (Clean p))
      in if Clean p \<in> set (denied m) then (Some (PathError ''mkdir'' p EACCES), m)
         else if filter (\<lambda>d. case map_of (nodes m) d of Some (FileNode data) \<Rightarrow> True
                                 | Some DirNode \<Rightarrow> False | None \<Rightarrow> False) dirs \<noteq> []
         then (Some (PathError ''mkdir'' p ENOTDIR), m)
         else (None, m\<lparr>nodes := fold (\<lambda>d ns. case map_of ns d of None \<Rightarrow> put d DirNode ns
                                                 | Some n \<Rightarrow> ns) dirs (nodes m)\<rparr>))"

definition mem_Mkdir :: "string \<Rightarrow> mem \<Rightarrow> error option \<times> mem" where
  "mem_Mkdir p m =
     (if Clean p \<in> set (denied m) then (Some (PathError ''mkdir'' p EACCES), m)
      else if node_at m p \<noteq> None then (Some (PathError ''mkdir'' p EEXIST), m)
      else if Dir p \<noteq> ''.'' \<and> node_at m (Dir p) \<noteq> Some DirNode
      then (Some (PathError ''mkdir'' p ENOENT), m)
      else (None, m\<lparr>nodes := put (Clean p) DirNode (nodes m)\<rparr>))"

definition mem_Stat :: "string \<Rightarrow> mem \<Rightarrow> error + FileInfo" where
  "mem_Stat p m =
     (case node_at m p of
        None \<Rightarrow> Inl (PathError ''stat'' p ENOENT)
      | Some DirNode \<Rightarrow> Inr (FileInfo True)
      | Some (FileNode data) \<Rightarrow> Inr (FileInfo False))"

definition mem_Lstat :: "string \<Rightarrow> mem \<Rightarrow> error + FileInfo" where
  "mem_Lstat p m =
     (case node_at m p of
        None \<Rightarrow> Inl (PathError ''lstat'' p ENOENT)
      | Some DirNode \<Rightarrow> Inr (FileInfo True)
      | Some (FileNode data) \<Rightarrow> Inr (FileInfo False))"

text \<open>The names in a directory, sorted as \<^verbatim>\<open>filepath.Walk\<close> sorts them (by bytes).\<close>

fun bytes_le :: "string \<Rightarrow> string \<Rightarrow> bool" where
  "bytes_le [] ys = True"
| "bytes_le (x # xs) [] = False"
| "bytes_le (x # xs) (y # ys) =
     ((of_char x :: nat) < of_char y \<or> (x = y \<and> bytes_le xs ys))"

fun insertName :: "string \<Rightarrow> string list \<Rightarrow> string list" where
  "insertName x [] = [x]"
| "insertName x (y # ys) = (if bytes_le x y then x # y # ys else y # insertName x ys)"

definition mem_ReadDirNames :: "string \<Rightarrow> mem \<Rightarrow> error + string list" where
  "mem_ReadDirNames p m =
     (case node_at m p of
        None \<Rightarrow> Inl (PathError ''open'' p ENOENT)
      | Some (FileNode data) \<Rightarrow> Inl (PathError ''readdirent'' p ENOTDIR)
      | Some DirNode \<Rightarrow>
          Inr (foldr insertName
                 (concat (map (\<lambda>(q, n).
                    let name = drop (Suc (length (Clean p))) q
                    in if under (Clean p) q \<and> CHR ''/'' \<notin> set name then [name] else [])
                    (nodes m))) []))"

definition mem_ReadFile :: "string \<Rightarrow> mem \<Rightarrow> error + bytes" where
  "mem_ReadFile p m =
     (case node_at m p of
        None \<Rightarrow> Inl (PathError ''open'' p ENOENT)
      | Some DirNode \<Rightarrow> Inl (PathError ''read'' p EISDIR)
      | Some (FileNode data) \<Rightarrow> Inr data)"

definition mem_WriteFile :: "string \<Rightarrow> bytes \<Rightarrow> mem \<Rightarrow> error option \<times> mem" where
  "mem_WriteFile p data m =
     (if Clean p \<in> set (denied m) then (Some (PathError ''open'' p EACCES), m)
      else if node_at m p = Some DirNode then (Some (PathError ''open'' p EISDIR), m)
      else if Dir p \<noteq> ''.'' \<and> node_at m (Dir p) \<noteq> Some DirNode
      then (Some (PathError ''open'' p ENOENT), m)
      else (None, m\<lparr>nodes := put (Clean p) (FileNode data) (nodes m)\<rparr>))"

definition mem_Create :: "string \<Rightarrow> mem \<Rightarrow> (error + File) \<times> mem" where
  "mem_Create p m =
     (case mem_WriteFile p [] m of
        (Some err, m') \<Rightarrow> (Inl err, m')
      | (None, m') \<Rightarrow> (Inr (File p), m'))"

definition mem_Open :: "string \<Rightarrow> mem \<Rightarrow> (error + File) \<times> mem" where
  "mem_Open p m =
     (case node_at m p of
        None \<Rightarrow> (Inl (PathError ''open'' p ENOENT), m)
      | Some n \<Rightarrow> (Inr (File p), m))"

text \<open>\<^verbatim>\<open>f.Write(data)\<close> on an open file, for the renderers.\<close>

definition mem_Write :: "File \<Rightarrow> bytes \<Rightarrow> mem \<Rightarrow> error option \<times> mem" where
  "mem_Write f data m =
     (case node_at m (Name f) of
        Some (FileNode old) \<Rightarrow>
          (None, m\<lparr>nodes := put (Clean (Name f)) (FileNode (old @ data)) (nodes m)\<rparr>)
      | Some DirNode \<Rightarrow> (Some (PathError ''write'' (Name f) EISDIR), m)
      | None \<Rightarrow> (Some (PathError ''write'' (Name f) ENOENT), m))"

definition mem_Copy :: "File \<Rightarrow> File \<Rightarrow> mem \<Rightarrow> error option \<times> mem" where
  "mem_Copy dst src m =
     (case mem_ReadFile (Name src) m of
        Inl err \<Rightarrow> (Some err, m)
      | Inr data \<Rightarrow> mem_Write dst data m)"

definition mem_Close :: "File \<Rightarrow> mem \<Rightarrow> error option \<times> mem" where
  "mem_Close f m = (None, m)"

definition mem_Getenv :: "string \<Rightarrow> mem \<Rightarrow> string" where
  "mem_Getenv key m = (if key = ''SHELL'' then shellenv m else [])"

definition mem_RunCommand :: "Context \<Rightarrow> string \<Rightarrow> string list \<Rightarrow> mem \<Rightarrow> error option \<times> mem" where
  "mem_RunCommand ctx shell args m =
     (if args = [''-c'', ''false''] then (Some (ExitError 1), m\<lparr>ran := ran m @ [shell # args]\<rparr>)
      else (None, m\<lparr>ran := ran m @ [shell # args]\<rparr>))"

definition mem_os :: "mem OS" where
  "mem_os =
     \<lparr>RemoveAll = mem_RemoveAll, MkdirAll = mem_MkdirAll, Stat = mem_Stat, Lstat = mem_Lstat,
      ReadDirNames = mem_ReadDirNames, ReadFile = mem_ReadFile, WriteFile = mem_WriteFile,
      Create = mem_Create, Open = mem_Open, Copy = mem_Copy, Close = mem_Close,
      Getenv = mem_Getenv, RunCommand = mem_RunCommand\<rparr>"


section \<open>Notions of the specification\<close>

text \<open>The digest of the specification: \<^verbatim>\<open>hex(sha256(file_bytes))[0:7]\<close>.\<close>

definition digest :: "bytes \<Rightarrow> string" where
  "digest data = take 7 (EncodeToString (Sum256 data))"

text \<open>What a build may do to a site: the registries, the queue and the directories stay
  as they are, and no entry of the asset table is removed.\<close>

definition registriesKept :: "'w Site \<Rightarrow> 'w Site \<Rightarrow> bool" where
  "registriesKept s s' \<longleftrightarrow>
     renderers s' = renderers s \<and> commands s' = commands s \<and> configurers s' = configurers s \<and>
     OutputDir s' = OutputDir s \<and> PublicDir s' = PublicDir s \<and> AssetsDir s' = AssetsDir s \<and>
     dom (assets s) \<subseteq> dom (assets s')"

section \<open>Sites, worlds and callbacks to run the package on\<close>

text \<open>The site \<^verbatim>\<open>New\<close> starts from, with the queue already empty.\<close>

definition defaultSite :: "'w Site" where
  "defaultSite =
     \<lparr>OutputDir = ''output'', PublicDir = ''public'', AssetsDir = ''assets'',
      assets = Map.empty, commands = [], configurers = [], renderers = Map.empty\<rparr>"

definition emptyWorld :: mem where
  "emptyWorld = \<lparr>nodes = [], shellenv = [], denied = [], ran = []\<rparr>"

text \<open>The asset of the package's test: \<^verbatim>\<open>assets/image.png\<close> with the content
  \<^verbatim>\<open>image\<close>.\<close>

definition imageWorld :: mem where
  "imageWorld =
     emptyWorld\<lparr>nodes := [(''assets'', DirNode), (''assets/image.png'', FileNode ''image'')]\<rparr>"

definition publicWorld :: mem where
  "publicWorld =
     emptyWorld\<lparr>nodes := [(''public'', DirNode), (''public/robots.txt'', FileNode ''robot'')]\<rparr>"

text \<open>A renderer that fails after it has written the beginning of its page, and one
  that writes its page.\<close>

definition brokenRenderer :: "mem Renderer" where
  "brokenRenderer ctx v f w =
     (Some (Errorf ''template: unexpected EOF'' []), snd (mem_Write f ''<!doctype'' w))"

definition pageRenderer :: "mem Renderer" where
  "pageRenderer ctx v f w = mem_Write f ''<!doctype html>'' w"

text \<open>The empty world after the output directory has been made; a site with one page,
  whose renderer fails, and a site with two pages, of which the first fails.\<close>

definition outWorld :: mem where
  "outWorld = emptyWorld\<lparr>nodes := [(''output'', DirNode)]\<rparr>"

definition brokenSite :: "mem Site" where
  "brokenSite = defaultSite\<lparr>renderers := [''index.html'' \<mapsto> brokenRenderer]\<rparr>"

definition twoPages :: "mem Site" where
  "twoPages =
     defaultSite\<lparr>renderers := [''a.html'' \<mapsto> brokenRenderer, ''b.html'' \<mapsto> pageRenderer]\<rparr>"

text \<open>Configuration steps that leave their name in the world, a list of names: a step
  that makes the given calls and returns the given error, and a tree of steps.\<close>

definition namedStep ::
  "string \<Rightarrow> (string list, string list Configurer) SiteCall list \<Rightarrow> error option
    \<Rightarrow> string list Configurer" where
  "namedStep name calls err = ConfigureFunc (\<lambda>ctx v w. ((calls, err), w @ [name]))"

definition treeStep :: "string \<Rightarrow> string list Step list \<Rightarrow> string list Step" where
  "treeStep name ts = Step (\<lambda>w. w @ [name]) ts"

definition failure :: error where
  "failure = Errorf ''no such template'' []"

definition stepC :: "string list Configurer" where
  "stepC = namedStep ''C'' [] None"

definition stepD :: "string list Configurer" where
  "stepD = namedStep ''D'' [] None"

definition stepE :: "string list Configurer" where
  "stepE = namedStep ''E'' [] None"

definition stepA :: "string list Configurer" where
  "stepA = namedStep ''A'' [CallConfigure stepC] None"

definition stepB :: "string list Configurer" where
  "stepB = namedStep ''B'' [CallConfigure stepD] (Some failure)"

definition stepInit :: "string list Configurer" where
  "stepInit = namedStep ''init'' [CallConfigure stepA, CallConfigure stepB, CallConfigure stepE] None"

definition stepTree :: "string list Step" where
  "stepTree =
     treeStep ''root''
       [treeStep ''a'' [treeStep ''c'' [treeStep ''e'' []]],
        treeStep ''b'' [treeStep ''d'' []]]"

section \<open>Properties\<close>

subsection \<open>Strings and digests\<close>

lemma lastIndexFrom_absent:
  "c \<notin> set s \<Longrightarrow> lastIndexFrom i s [c] = - 1"
proof (induction i)
  case 0
  then show ?case by (cases s) auto
next
  case (Suc i)
  have "take 1 (drop (Suc i) s) \<noteq> [c]"
  proof
    assume "take 1 (drop (Suc i) s) = [c]"
    then have "c \<in> set (take 1 (drop (Suc i) s))" by simp
    then have "c \<in> set s" by (meson in_set_dropD in_set_takeD)
    with Suc.prems show False by simp
  qed
  with Suc show ?case by simp
qed

lemma LastIndex_absent: "c \<notin> set s \<Longrightarrow> LastIndex s [c] = - 1"
  by (simp add: LastIndex_def lastIndexFrom_absent)

lemma lastIndexFrom_last:
  "c \<notin> set ext \<Longrightarrow> k \<le> length ext \<Longrightarrow>
   lastIndexFrom (length stem + k) (stem @ c # ext) [c] = int (length stem)"
proof (induction k)
  case 0
  then show ?case by (cases stem) auto
next
  case (Suc k)
  have "take 1 (drop (Suc k) (c # ext)) \<noteq> [c]"
  proof
    assume "take 1 (drop (Suc k) (c # ext)) = [c]"
    then have "c \<in> set (take 1 (drop k ext))" by simp
    then have "c \<in> set ext" by (meson in_set_dropD in_set_takeD)
    with Suc.prems show False by simp
  qed
  with Suc show ?case by simp
qed

lemma LastIndex_last:
  "c \<notin> set ext \<Longrightarrow> LastIndex (stem @ c # ext) [c] = int (length stem)"
  using lastIndexFrom_last [of c ext "length ext" stem] by (simp add: LastIndex_def)

lemma length_round256: "length hs = 8 \<Longrightarrow> length (round256 kw hs) = 8"
proof -
  assume "length hs = 8"
  then obtain a b c d e f g h where "hs = [a, b, c, d, e, f, g, h]"
    by (auto simp: length_Suc_conv eval_nat_numeral)
  then show ?thesis by (cases kw) (simp add: Let_def)
qed

lemma length_fold_round256: "length hs = 8 \<Longrightarrow> length (fold round256 kws hs) = 8"
  by (induction kws arbitrary: hs) (simp_all add: length_round256)

lemma length_block: "length hs = 8 \<Longrightarrow> length (block hs p) = 8"
  by (simp add: block_def length_fold_round256)

lemma length_blocks: "length hs = 8 \<Longrightarrow> length (blocks hs p) = 8"
proof (induction hs p rule: blocks.induct)
  case (1 hs p)
  show ?case
  proof (cases "length p < 64")
    case True
    then show ?thesis using "1.prems" by (subst blocks.simps) simp
  next
    case False
    then show ?thesis using "1.IH" "1.prems" by (subst blocks.simps) (simp add: length_block)
  qed
qed

lemma length_concat_PutUint32: "length (concat (map PutUint32 hs)) = 4 * length hs"
  by (induction hs) (simp_all add: PutUint32_def)

lemma length_Sum256: "length (Sum256 data) = 32"
  by (simp add: Sum256_def length_concat_PutUint32 length_blocks init256_def)

lemma length_EncodeToString: "length (EncodeToString src) = 2 * length src"
  by (induction src) (simp_all add: EncodeToString_def)

lemma length_digest: "length (digest data) = 7"
  by (simp add: digest_def length_EncodeToString length_Sum256)

lemma hexdigit_set: "n < 16 \<Longrightarrow> hexdigit n \<in> set ''0123456789abcdef''"
  unfolding hexdigit_def by (rule nth_mem) simp

lemma of_char_bound: "of_char (b::char) < (256::nat)"
  by (metis of_char_mod_256 mod_less_divisor zero_less_numeral)

lemma set_EncodeToString: "set (EncodeToString src) \<subseteq> set ''0123456789abcdef''"
proof -
  define H where "H = set ''0123456789abcdef''"
  have h: "hexdigit (of_char b div 16) \<in> H \<and> hexdigit (of_char b mod 16) \<in> H" for b :: char
  proof -
    have "(of_char b :: nat) < 16 * 16" using of_char_bound [of b] by simp
    then have d: "(of_char b :: nat) div 16 < 16" by (rule less_mult_imp_div_less)
    have m: "(of_char b :: nat) mod 16 < 16" by simp
    show ?thesis unfolding H_def using hexdigit_set [OF d] hexdigit_set [OF m] by (rule conjI)
  qed
  have "set (EncodeToString src) \<subseteq> H"
    by (induction src) (use h in \<open>auto simp: EncodeToString_def\<close>)
  then show ?thesis unfolding H_def .
qed

lemma digest_hex: "set (digest data) \<subseteq> set ''0123456789abcdef''"
  unfolding digest_def using set_EncodeToString set_take_subset by fast

lemma digest_no_dot: "CHR ''.'' \<notin> set (digest data)"
  using digest_hex [of data] by auto

lemma fingerprint_digest:
  "fingerprint data path =
     (if LastIndex (Base path) ''.'' \<noteq> - 1
      then take (nat (LastIndex (Base path) ''.'')) (Base path) @ ''.'' @ digest data
             @ drop (nat (LastIndex (Base path) ''.'')) (Base path)
      else Base path @ ''.'' @ digest data)"
  by (simp add: fingerprint_def digest_def Let_def)

lemma fingerprint_no_dot:
  "CHR ''.'' \<notin> set (Base path) \<Longrightarrow> fingerprint data path = Base path @ ''.'' @ digest data"
  by (simp add: fingerprint_digest LastIndex_absent)

lemma fingerprint_last_dot:
  assumes "Base path = stem @ ''.'' @ ext" and "CHR ''.'' \<notin> set ext"
  shows "fingerprint data path = stem @ ''.'' @ digest data @ ''.'' @ ext"
proof -
  have "LastIndex (Base path) ''.'' = int (length stem)"
    using LastIndex_last [OF assms(2), of stem] assms(1) by simp
  then show ?thesis using assms(1) by (simp add: fingerprint_digest)
qed

lemma fingerprint_inserts:
  "\<exists>pre post. Base path = pre @ post \<and> fingerprint data path = pre @ ''.'' @ digest data @ post"
proof (cases "LastIndex (Base path) ''.'' = - 1")
  case True
  then have "Base path = Base path @ [] \<and>
      fingerprint data path = Base path @ ''.'' @ digest data @ []"
    by (simp add: fingerprint_digest)
  then show ?thesis by blast
next
  case False
  define i where "i = nat (LastIndex (Base path) ''.'')"
  have "Base path = take i (Base path) @ drop i (Base path) \<and>
      fingerprint data path = take i (Base path) @ ''.'' @ digest data @ drop i (Base path)"
    using False by (simp add: fingerprint_digest i_def)
  then show ?thesis by blast
qed

lemma first_separator:
  assumes "xs @ c # ys = us @ c # vs" and "c \<notin> set xs" and "c \<notin> set us"
  shows "xs = us"
proof -
  have "takeWhile (\<lambda>x. x \<noteq> c) (xs @ c # ys) = xs" using assms(2) by (auto simp: takeWhile_tail)
  moreover have "takeWhile (\<lambda>x. x \<noteq> c) (us @ c # vs) = us"
    using assms(3) by (auto simp: takeWhile_tail)
  ultimately show ?thesis using assms(1) by simp
qed

subsection \<open>The digest of the test asset\<close>

text \<open>The SHA-256 digest of the five bytes \<^verbatim>\<open>image\<close> starts with \<^verbatim>\<open>6105d6c\<close>, the name the
  package's test expects. The padded message is one block.\<close>

lemma replicate_numeral: "replicate (numeral k) x = x # replicate (pred_numeral k) x"
  by (simp add: numeral_eq_Suc)

lemma pad_image:
  "pad ''image'' = ''image'' @ char_of (128 :: nat) # replicate 50 (char_of (0 :: nat))
     @ [char_of (0 :: nat), char_of (0 :: nat), char_of (0 :: nat), char_of (0 :: nat),
        char_of (0 :: nat), char_of (0 :: nat), char_of (0 :: nat), char_of (40 :: nat)]"
  by (simp add: pad_def PutUint64_def)

lemma schedule_image:
  "schedule (pad ''image'') =
   [1768776039, 1702887424, 0, 0, 0, 0, 0, 0, 0, 0, 0, 0, 0, 0, 0, 40,
    1978170055, 1704001536, 841363031, 2686016058, 3538810588, 2255618649,
    1166100606, 3073305150, 4071787042, 3667621151, 3028477415, 2802362271,
    3033796289, 2358717898, 2379138102, 85507891, 1471934521, 2252852998,
    2534078401, 1367260320, 2820089426, 1144389325, 2473015753, 1221880662,
    4002753064, 2331703713, 951410391, 153705853, 1304611952, 1925299702,
    1605269332, 1633520827, 3323203976, 1661921432, 278827708, 3260016623,
    2745440105, 39276107, 1033145008, 1683662404, 298342291, 2724152246,
    3366787821, 1351767808, 200522037, 1349113187, 2307901658, 1348229169]"
  by (simp add: pad_image replicate_numeral schedule_def nextWord_def add32_def ssig0_def ssig1_def rotr_def)

lemma block_image:
  "block init256 (pad ''image'') =
   [1627772620, 1991196675, 636046680, 2363822526, 1543355251, 3023559761,
    3970185495, 3617865277]"
  by (simp add: block_def schedule_image K256_def init256_def add32_def bsig0_def bsig1_def
      not32_def rotr_def)

lemma blocks_one: "length p = 64 \<Longrightarrow> blocks hs p = block hs p"
  by (subst blocks.simps, subst blocks.simps) simp

lemma digest_image: "digest ''image'' = ''6105d6c''"
proof -
  have "length (pad ''image'') = 64" by (simp add: pad_image)
  then have "blocks init256 (pad ''image'') = block init256 (pad ''image'')"
    by (rule blocks_one)
  then show ?thesis
    by (simp add: digest_def Sum256_def block_image PutUint32_def EncodeToString_def hexdigit_def)
qed

lemmas path_defs = Clean_def Join_def Dir_def Base_def TrimPrefix_def LastIndex_def

subsection \<open>The fingerprinted file name\<close>

text \<open>
  \<^bold>\<open>C1.\<close> For every asset file the fingerprinted file name is derived from the digest,
  the first 7 characters of the lowercase hexadecimal SHA-256 of the file's bytes (64
  characters, all of them hexadecimal digits). When the base name has no dot, a dot and
  the digest are appended to it. When it has one, with \<open>ext\<close> after its last dot, a dot
  and the digest are inserted before that last dot: stem, dot, digest, extension. This is
  the name \<^verbatim>\<open>copyAssets\<close> gives every regular file it reads and writes: it writes
  the bytes under that name beside the source's place in the output tree and records the
  name, with its directory, in the asset table.
\<close>

theorem fingerprint_name:
  "(CHR ''.'' \<notin> set (Base path) \<longrightarrow> fingerprint data path = Base path @ ''.'' @ digest data)
   \<and> (\<forall>stem ext. Base path = stem @ ''.'' @ ext \<and> CHR ''.'' \<notin> set ext \<longrightarrow>
         fingerprint data path = stem @ ''.'' @ digest data @ ''.'' @ ext)
   \<and> digest data = take 7 (EncodeToString (Sum256 data))
   \<and> length (EncodeToString (Sum256 data)) = 64
   \<and> set (EncodeToString (Sum256 data)) \<subseteq> set ''0123456789abcdef''
   \<and> (\<forall>os s lg w info w'.
         \<not> IsDir info \<and> ReadFile os path w = Inr data \<and>
         WriteFile os (Join [OutputDir s, Dir path, fingerprint data path]) data w = (None, w') \<longrightarrow>
         copyAssetsFn os path info None (s, lg, w) =
           (None,
            s\<lparr>assets := (assets s)(TrimPrefix path (AssetsDir s @ ''/'') \<mapsto>
                 Join [Dir (TrimPrefix path (AssetsDir s @ ''/'')), fingerprint data path])\<rparr>,
            lg @ [Printf ''copying asset %s\<newline>'' [Str (TrimPrefix path (AssetsDir s @ ''/''))]],
            w'))"
proof (intro conjI allI impI)
  show "digest data = take 7 (EncodeToString (Sum256 data))" by (simp add: digest_def)
  show "length (EncodeToString (Sum256 data)) = 64"
    by (simp add: length_EncodeToString length_Sum256)
  show "set (EncodeToString (Sum256 data)) \<subseteq> set ''0123456789abcdef''"
    by (rule set_EncodeToString)
next
  assume "CHR ''.'' \<notin> set (Base path)"
  then show "fingerprint data path = Base path @ ''.'' @ digest data"
    by (rule fingerprint_no_dot)
next
  fix stem ext
  assume "Base path = stem @ ''.'' @ ext \<and> CHR ''.'' \<notin> set ext"
  then show "fingerprint data path = stem @ ''.'' @ digest data @ ''.'' @ ext"
    using fingerprint_last_dot by blast
next
  fix os :: "'a OS" and s :: "'a Site" and lg w info w'
  assume "\<not> IsDir info \<and> ReadFile os path w = Inr data \<and>
         WriteFile os (Join [OutputDir s, Dir path, fingerprint data path]) data w = (None, w')"
  then show "copyAssetsFn os path info None (s, lg, w) =
           (None,
            s\<lparr>assets := (assets s)(TrimPrefix path (AssetsDir s @ ''/'') \<mapsto>
                 Join [Dir (TrimPrefix path (AssetsDir s @ ''/'')), fingerprint data path])\<rparr>,
            lg @ [Printf ''copying asset %s\<newline>'' [Str (TrimPrefix path (AssetsDir s @ ''/''))]],
            w')"
    by (simp add: copyAssetsFn_def Let_def)
qed

theorem fingerprint_name_witness:
  "CHR ''.'' \<notin> set (Base ''assets/LICENSE'')
   \<and> fingerprint ''image'' ''assets/LICENSE'' = ''LICENSE.6105d6c''
   \<and> Base ''assets/image.png'' = ''image'' @ ''.'' @ ''png'' \<and> CHR ''.'' \<notin> set ''png''
   \<and> fingerprint ''image'' ''assets/image.png'' = ''image.6105d6c.png''
   \<and> fingerprint ''image'' ''assets/jquery.min.js'' = ''jquery.min.6105d6c.js''
   \<and> \<not> IsDir (FileInfo False)
   \<and> ReadFile mem_os ''assets/image.png'' imageWorld = Inr ''image''
   \<and> copyAssetsFn mem_os ''assets/image.png'' (FileInfo False) None
        (defaultSite\<lparr>OutputDir := ''.''\<rparr>, [], imageWorld) =
        (None,
         defaultSite\<lparr>OutputDir := ''.'', assets := [''image.png'' \<mapsto> ''image.6105d6c.png'']\<rparr>,
         [Printf ''copying asset %s\<newline>'' [Str ''image.png'']],
         imageWorld\<lparr>nodes := nodes imageWorld @
           [(''assets/image.6105d6c.png'', FileNode ''image'')]\<rparr>)"
proof -
  have b1: "CHR ''.'' \<notin> set (Base ''assets/LICENSE'')" by (simp add: Base_def)
  have b2: "Base ''assets/image.png'' = ''image'' @ ''.'' @ ''png'' \<and> CHR ''.'' \<notin> set ''png''"
    by (simp add: Base_def)
  have b3: "Base ''assets/jquery.min.js'' = ''jquery.min'' @ ''.'' @ ''js'' \<and> CHR ''.'' \<notin> set ''js''"
    by (simp add: Base_def)
  have "fingerprint ''image'' ''assets/LICENSE'' = Base ''assets/LICENSE'' @ ''.'' @ digest ''image''"
    using fingerprint_name [where 'a = mem, of "''assets/LICENSE''" "''image''"] b1 by blast
  then have f1: "fingerprint ''image'' ''assets/LICENSE'' = ''LICENSE.6105d6c''"
    by (simp add: digest_image Base_def)
  have "fingerprint ''image'' ''assets/image.png'' = ''image'' @ ''.'' @ digest ''image'' @ ''.'' @ ''png''"
    using fingerprint_name [where 'a = mem, of "''assets/image.png''" "''image''"] b2 by blast
  then have f2: "fingerprint ''image'' ''assets/image.png'' = ''image.6105d6c.png''"
    by (simp add: digest_image)
  have "fingerprint ''image'' ''assets/jquery.min.js'' =
      ''jquery.min'' @ ''.'' @ digest ''image'' @ ''.'' @ ''js''"
    using fingerprint_name [where 'a = mem, of "''assets/jquery.min.js''" "''image''"] b3 by blast
  then have f3: "fingerprint ''image'' ''assets/jquery.min.js'' = ''jquery.min.6105d6c.js''"
    by (simp add: digest_image)
  have i: "\<not> IsDir (FileInfo False)" by simp
  have r: "ReadFile mem_os ''assets/image.png'' imageWorld = Inr ''image''"
    by (simp add: mem_os_def mem_ReadFile_def node_at_def imageWorld_def emptyWorld_def path_defs)
  define s0 :: "mem Site" where "s0 = defaultSite\<lparr>OutputDir := ''.''\<rparr>"
  define w1 where "w1 = imageWorld\<lparr>nodes := nodes imageWorld @
           [(''assets/image.6105d6c.png'', FileNode ''image'')]\<rparr>"
  have w: "WriteFile mem_os (Join [OutputDir s0,
      Dir ''assets/image.png'', fingerprint ''image'' ''assets/image.png'']) ''image'' imageWorld =
      (None, w1)"
    by (simp add: f2 mem_os_def mem_WriteFile_def node_at_def imageWorld_def emptyWorld_def
        defaultSite_def s0_def w1_def path_defs)
  have "copyAssetsFn mem_os ''assets/image.png'' (FileInfo False) None (s0, [], imageWorld) =
        (None,
         s0\<lparr>assets := (assets s0)(TrimPrefix ''assets/image.png'' (AssetsDir s0 @ ''/'') \<mapsto>
              Join [Dir (TrimPrefix ''assets/image.png'' (AssetsDir s0 @ ''/'')),
                    fingerprint ''image'' ''assets/image.png''])\<rparr>,
         [] @ [Printf ''copying asset %s\<newline>''
                 [Str (TrimPrefix ''assets/image.png'' (AssetsDir s0 @ ''/''))]],
         w1)"
    using fingerprint_name [where 'a = mem, of "''assets/image.png''" "''image''"] i r w by blast
  then have c: "copyAssetsFn mem_os ''assets/image.png'' (FileInfo False) None
        (defaultSite\<lparr>OutputDir := ''.''\<rparr>, [], imageWorld) =
        (None,
         defaultSite\<lparr>OutputDir := ''.'', assets := [''image.png'' \<mapsto> ''image.6105d6c.png'']\<rparr>,
         [Printf ''copying asset %s\<newline>'' [Str ''image.png'']],
         imageWorld\<lparr>nodes := nodes imageWorld @
           [(''assets/image.6105d6c.png'', FileNode ''image'')]\<rparr>)"
    by (simp add: f2 s0_def w1_def defaultSite_def path_defs)
  show ?thesis using b1 b2 f1 f2 f3 i r c by simp
qed

text \<open>
  \<^bold>\<open>C5\<close> says that two asset files with the same bytes get the same fingerprinted file
  name whatever their paths and stems. The name keeps the stem, so it is not so:
  \<^verbatim>\<open>a.png\<close> and \<^verbatim>\<open>b.png\<close> with the same five bytes become \<^verbatim>\<open>a.6105d6c.png\<close>
  and \<^verbatim>\<open>b.6105d6c.png\<close>.
\<close>

theorem same_bytes_other_name:
  "fingerprint ''image'' ''assets/a.png'' = ''a.6105d6c.png''
   \<and> fingerprint ''image'' ''assets/b.png'' = ''b.6105d6c.png''
   \<and> fingerprint ''image'' ''assets/a.png'' \<noteq> fingerprint ''image'' ''assets/b.png''"
proof -
  have a: "fingerprint ''image'' ''assets/a.png'' = ''a.6105d6c.png''"
    using fingerprint_last_dot [of "''assets/a.png''" "''a''" "''png''" "''image''"]
    by (simp add: Base_def digest_image)
  have b: "fingerprint ''image'' ''assets/b.png'' = ''b.6105d6c.png''"
    using fingerprint_last_dot [of "''assets/b.png''" "''b''" "''png''" "''image''"]
    by (simp add: Base_def digest_image)
  show ?thesis using a b by simp
qed

text \<open>
  \<^bold>\<open>C5, as the code has it.\<close> Two asset files with the same bytes and the same base name
  get the same fingerprinted file name, whatever their directories. For any two files
  with the same bytes the name is the base name with a dot and one and the same digest
  inserted in it.
\<close>

theorem same_bytes_same_digest:
  "(Base path1 = Base path2 \<longrightarrow> fingerprint data path1 = fingerprint data path2)
   \<and> (\<exists>pre post. Base path1 = pre @ post \<and>
         fingerprint data path1 = pre @ ''.'' @ digest data @ post)
   \<and> (\<exists>pre post. Base path2 = pre @ post \<and>
         fingerprint data path2 = pre @ ''.'' @ digest data @ post)"
  using fingerprint_inserts [of path1 data] fingerprint_inserts [of path2 data]
  by (simp add: fingerprint_digest)

theorem same_bytes_same_digest_witness:
  "Base ''assets/css/site.css'' = Base ''assets/site.css''
   \<and> fingerprint ''image'' ''assets/css/site.css'' = fingerprint ''image'' ''assets/site.css''"
proof -
  have b: "Base ''assets/css/site.css'' = Base ''assets/site.css''" by (simp add: Base_def)
  then have "fingerprint ''image'' ''assets/css/site.css'' = fingerprint ''image'' ''assets/site.css''"
    using same_bytes_same_digest [of "''assets/css/site.css''" "''assets/site.css''" "''image''"]
    by blast
  with b show ?thesis by simp
qed

text \<open>
  \<^bold>\<open>C9.\<close> For an asset file whose base name starts with its only dot, the leading dot is
  taken for the dot of the extension: the fingerprinted name is a dot, the digest and
  the whole original name. The name the rule for names without extension would give,
  the original name, a dot and the digest, is another string, except when what follows
  the leading dot is the digest itself.
\<close>

theorem fingerprint_dotfile:
  assumes "Base path = ''.'' @ rest" and "CHR ''.'' \<notin> set rest"
  shows "fingerprint data path = ''.'' @ digest data @ Base path
         \<and> (rest \<noteq> digest data \<longrightarrow> fingerprint data path \<noteq> Base path @ ''.'' @ digest data)"
proof
  have "fingerprint data path = [] @ ''.'' @ digest data @ ''.'' @ rest"
    using fingerprint_last_dot [of path "[]" rest data] assms by simp
  then show eq: "fingerprint data path = ''.'' @ digest data @ Base path"
    using assms(1) by simp
  show "rest \<noteq> digest data \<longrightarrow> fingerprint data path \<noteq> Base path @ ''.'' @ digest data"
  proof (intro impI notI)
    assume ne: "rest \<noteq> digest data"
    assume "fingerprint data path = Base path @ ''.'' @ digest data"
    then have "digest data @ CHR ''.'' # rest = rest @ CHR ''.'' # digest data"
      using eq assms(1) by simp
    then have "digest data = rest"
      using first_separator [of "digest data" "CHR ''.''" rest rest "digest data"]
        digest_no_dot [of data] assms(2) by simp
    with ne show False by simp
  qed
qed

theorem fingerprint_dotfile_witness:
  "Base ''assets/.gitignore'' = ''.'' @ ''gitignore'' \<and> CHR ''.'' \<notin> set ''gitignore''
   \<and> fingerprint ''image'' ''assets/.gitignore'' = ''.6105d6c.gitignore''
   \<and> fingerprint ''image'' ''assets/.gitignore'' \<noteq> ''.gitignore.6105d6c''"
proof -
  have b: "Base ''assets/.gitignore'' = ''.'' @ ''gitignore''" by (simp add: Base_def)
  have n: "CHR ''.'' \<notin> set ''gitignore''" by simp
  have "fingerprint ''image'' ''assets/.gitignore'' = ''.'' @ digest ''image'' @ Base ''assets/.gitignore''
    \<and> (''gitignore'' \<noteq> digest ''image'' \<longrightarrow>
         fingerprint ''image'' ''assets/.gitignore'' \<noteq> Base ''assets/.gitignore'' @ ''.'' @ digest ''image'')"
    by (rule fingerprint_dotfile [OF b n])
  then show ?thesis using b n by (simp add: digest_image)
qed

subsection \<open>Asset\<close>

text \<open>
  \<^bold>\<open>C8.\<close> For a name that is not in the asset table \<^verbatim>\<open>Asset\<close> panics, and returns no
  path; for a name that is there it returns the recorded path after a slash, the assets
  directory and a slash.
\<close>

theorem Asset_lookup:
  "(assets s name = None \<longrightarrow> Asset s name = Inl (Sprintf ''asset %q not found'' [Str []]))
   \<and> (\<forall>rel. assets s name = Some rel \<longrightarrow> Asset s name = Inr (''/'' @ AssetsDir s @ ''/'' @ rel))"
  by (simp add: Asset_def)

theorem Asset_lookup_witness:
  "assets (defaultSite :: mem Site) ''image.png'' = None
   \<and> Asset (defaultSite :: mem Site) ''image.png'' = Inl (Sprintf ''asset %q not found'' [Str []])
   \<and> assets ((defaultSite :: mem Site)\<lparr>assets := [''image.png'' \<mapsto> ''image.6105d6c.png'']\<rparr>)
        ''image.png'' = Some ''image.6105d6c.png''
   \<and> Asset ((defaultSite :: mem Site)\<lparr>assets := [''image.png'' \<mapsto> ''image.6105d6c.png'']\<rparr>)
        ''image.png'' = Inr ''/assets/image.6105d6c.png''"
proof -
  define s1 :: "mem Site" where
    "s1 = defaultSite\<lparr>assets := [''image.png'' \<mapsto> ''image.6105d6c.png'']\<rparr>"
  have n: "assets (defaultSite :: mem Site) ''image.png'' = None" by (simp add: defaultSite_def)
  have p: "assets s1 ''image.png'' = Some ''image.6105d6c.png''" by (simp add: s1_def)
  have "Asset (defaultSite :: mem Site) ''image.png'' = Inl (Sprintf ''asset %q not found'' [Str []])"
    using Asset_lookup [of "defaultSite :: mem Site" "''image.png''"] n by blast
  moreover have "Asset s1 ''image.png'' = Inr (''/'' @ AssetsDir s1 @ ''/'' @ ''image.6105d6c.png'')"
    using Asset_lookup [of s1 "''image.png''"] p by blast
  ultimately show ?thesis using n p by (simp add: s1_def defaultSite_def)
qed

subsection \<open>The configuration queue\<close>

lemma perform_queue:
  "perform call (s\<lparr>configurers := q @ configurers s\<rparr>) =
   (perform call s)\<lparr>configurers := q @ configurers (perform call s)\<rparr>"
  by (cases call) (simp_all add: Configure_def Render_def Run_def)

lemma fold_perform_queue:
  "fold perform calls (s\<lparr>configurers := q @ configurers s\<rparr>) =
   (fold perform calls s)\<lparr>configurers := q @ configurers (fold perform calls s)\<rparr>"
proof (induction calls arbitrary: s)
  case Nil
  show ?case by simp
next
  case (Cons call calls)
  show ?case using Cons.IH [of "perform call s"] by (simp add: perform_queue)
qed

lemma configurers_perform:
  "configurers (perform call s) = configurers s @ enqueued [call]"
  by (cases call) (simp_all add: Configure_def Render_def Run_def)

lemma enqueued_Cons: "enqueued (call # calls) = enqueued [call] @ enqueued calls"
  by (cases call) simp_all

lemma configurers_fold_perform:
  "configurers (fold perform calls s) = configurers s @ enqueued calls"
proof (induction calls arbitrary: s)
  case Nil
  show ?case by simp
next
  case (Cons call calls)
  show ?case
    using Cons.IH [of "perform call s"] enqueued_Cons [of call calls]
    by (simp add: configurers_perform)
qed

lemma configurers_invoke:
  "invoke c ctx s w = (err, s', w') \<Longrightarrow> \<exists>new. configurers s' = configurers s @ new"
  by (auto simp: invoke_def configurers_fold_perform split: prod.splits)

lemma invoke_queue:
  "invoke c ctx (s\<lparr>configurers := q @ r\<rparr>) w =
   (case invoke c ctx (s\<lparr>configurers := r\<rparr>) w of
      (err, s', w') \<Rightarrow> (err, s'\<lparr>configurers := q @ configurers s'\<rparr>, w'))"
proof -
  have t: "SiteData.truncate (s\<lparr>configurers := q @ r\<rparr>) = SiteData.truncate (s\<lparr>configurers := r\<rparr>)"
    by (simp add: SiteData.truncate_def)
  have "fold perform calls (s\<lparr>configurers := q @ r\<rparr>) =
        (fold perform calls (s\<lparr>configurers := r\<rparr>))
          \<lparr>configurers := q @ configurers (fold perform calls (s\<lparr>configurers := r\<rparr>))\<rparr>" for calls
    using fold_perform_queue [where calls = calls and q = q and s = "s\<lparr>configurers := r\<rparr>"]
    by simp
  then show ?thesis
    by (simp add: invoke_def t split: prod.splits)
qed

lemma drain_Nil: "configurers s = [] \<Longrightarrow> drain ctx s w = Some (Inr s, w)"
  by (subst drain.simps) simp

lemma drain_Cons:
  "configurers s = c # rest \<Longrightarrow>
   drain ctx s w =
     (case invoke c ctx (s\<lparr>configurers := rest\<rparr>) w of
        (Some err, s', w') \<Rightarrow> Some (Inl err, w')
      | (None, s', w') \<Rightarrow> drain ctx s' w')"
  by (subst drain.simps) simp

lemma drain_generation:
  "drain ctx (s\<lparr>configurers := q @ r\<rparr>) w =
     (case runAll q ctx (s\<lparr>configurers := r\<rparr>) w of
        (Inl err, w') \<Rightarrow> Some (Inl err, w')
      | (Inr s', w') \<Rightarrow> drain ctx s' w')"
proof (induction q arbitrary: s r w)
  case Nil
  show ?case by simp
next
  case (Cons c q)
  obtain err s1 w1 where inv: "invoke c ctx (s\<lparr>configurers := r\<rparr>) w = (err, s1, w1)"
    by (cases "invoke c ctx (s\<lparr>configurers := r\<rparr>) w") auto
  have inv': "invoke c ctx (s\<lparr>configurers := q @ r\<rparr>) w
      = (err, s1\<lparr>configurers := q @ configurers s1\<rparr>, w1)"
    using invoke_queue [where c = c and ctx = ctx and s = s and q = q and r = r and w = w] inv
    by simp
  have step: "drain ctx (s\<lparr>configurers := (c # q) @ r\<rparr>) w =
      (case err of Some e \<Rightarrow> Some (Inl e, w1)
       | None \<Rightarrow> drain ctx (s1\<lparr>configurers := q @ configurers s1\<rparr>) w1)"
    using drain_Cons [where s = "s\<lparr>configurers := (c # q) @ r\<rparr>" and c = c
        and rest = "q @ r" and ctx = ctx and w = w] inv'
    by (simp split: option.splits)
  show ?case
  proof (cases err)
    case (Some e)
    then show ?thesis using step inv by simp
  next
    case None
    have "drain ctx (s1\<lparr>configurers := q @ configurers s1\<rparr>) w1 =
          (case runAll q ctx (s1\<lparr>configurers := configurers s1\<rparr>) w1 of
             (Inl err, w') \<Rightarrow> Some (Inl err, w')
           | (Inr s', w') \<Rightarrow> drain ctx s' w')"
      by (rule Cons.IH)
    then show ?thesis using step inv None by simp
  qed
qed

lemma runAll_append:
  "runAll (pre @ post) ctx s w =
     (case runAll pre ctx s w of
        (Inl err, w') \<Rightarrow> (Inl err, w')
      | (Inr s', w') \<Rightarrow> runAll post ctx s' w')"
  by (induction pre arbitrary: s w) (auto split: prod.splits option.splits)

lemma drain_empty_queue:
  assumes "drain ctx s w = Some (Inr s', w')"
  shows "configurers s' = []"
proof -
  have "\<forall>s' w'. y = (Inr s', w') \<longrightarrow> configurers s' = []" if "drain ctx s w = Some y" for y
  proof (rule drain.raw_induct
      [where P = "\<lambda>ctx s w y. \<forall>s' w'. y = (Inr s', w') \<longrightarrow> configurers s' = []"])
    show "drain ctx s w = Some y" by (rule that)
  next
    fix drain' :: "Context \<Rightarrow> 'a Site \<Rightarrow> 'a \<Rightarrow> ((error + 'a Site) \<times> 'a) option"
    fix ctx s w y
    assume IH: "\<And>ctx s w y. drain' ctx s w = Some y
        \<Longrightarrow> \<forall>s' w'. y = (Inr s', w') \<longrightarrow> configurers s' = []"
    assume body: "(case configurers s of [] \<Rightarrow> Some (Inr s, w)
      | configurer # rest \<Rightarrow>
          (case invoke configurer ctx (s\<lparr>configurers := rest\<rparr>) w of
            (None, s', w') \<Rightarrow> drain' ctx s' w'
          | (Some err, s', w') \<Rightarrow> Some (Inl err, w'))) = Some y"
    show "\<forall>s' w'. y = (Inr s', w') \<longrightarrow> configurers s' = []"
    proof (cases "configurers s")
      case Nil
      then show ?thesis using body by auto
    next
      case (Cons c rest)
      then show ?thesis using body IH
        by (auto split: prod.splits option.splits)
    qed
  qed
  with assms show ?thesis by blast
qed

lemma invoke_forever:
  "invoke forever ctx s w = (None, s\<lparr>configurers := configurers s @ [forever]\<rparr>, w)"
  by (simp add: invoke_def Configure_def)

lemma drain_forever:
  assumes "configurers s = [forever]"
  shows "drain ctx s w = None"
proof -
  have "configurers s \<noteq> [forever]" if "drain ctx s w = Some y" for y
  proof (rule drain.raw_induct [where P = "\<lambda>ctx s w y. configurers s \<noteq> [forever]"])
    show "drain ctx s w = Some y" by (rule that)
  next
    fix drain' :: "Context \<Rightarrow> 'a Site \<Rightarrow> 'a \<Rightarrow> ((error + 'a Site) \<times> 'a) option"
    fix ctx s w y
    assume IH: "\<And>ctx s w y. drain' ctx s w = Some y \<Longrightarrow> configurers s \<noteq> [forever]"
    assume body: "(case configurers s of [] \<Rightarrow> Some (Inr s, w)
      | configurer # rest \<Rightarrow>
          (case invoke configurer ctx (s\<lparr>configurers := rest\<rparr>) w of
            (None, s', w') \<Rightarrow> drain' ctx s' w'
          | (Some err, s', w') \<Rightarrow> Some (Inl err, w'))) = Some y"
    show "configurers s \<noteq> [forever]"
    proof
      assume q: "configurers s = [forever]"
      then have "drain' ctx (s\<lparr>configurers := [forever]\<rparr>) w = Some y"
        using body by (simp add: invoke_forever)
      then have "configurers (s\<lparr>configurers := [forever]\<rparr>) \<noteq> [forever]" by (rule IH)
      then show False by simp
    qed
  qed
  with assms show ?thesis by (cases "drain ctx s w") auto
qed

lemma fold_perform_steps:
  "fold perform (map (\<lambda>t. CallConfigure (stepConfigurer t)) ts) s =
   s\<lparr>configurers := configurers s @ map stepConfigurer ts\<rparr>"
  by (induction ts arbitrary: s) (simp_all add: Configure_def)

lemma invoke_step:
  "invoke (stepConfigurer t) ctx s w =
   (None, s\<lparr>configurers := configurers s @ map stepConfigurer (enqueues t)\<rparr>, action t w)"
  by (cases t) (simp add: invoke_def fold_perform_steps)

lemma runAll_steps:
  "runAll (map stepConfigurer q) ctx s w =
   (Inr (s\<lparr>configurers := configurers s @ map stepConfigurer (concat (map enqueues q))\<rparr>),
    fold action q w)"
  by (induction q arbitrary: s w) (simp_all add: invoke_step)

lemma drain_steps:
  "drain ctx (s\<lparr>configurers := map stepConfigurer q\<rparr>) w =
   Some (Inr (s\<lparr>configurers := []\<rparr>), fold action (generations q) w)"
proof (induction q arbitrary: s w rule: generations.induct)
  case (1 ts)
  show ?case
  proof (cases "ts = []")
    case True
    then show ?thesis by (simp add: drain_Nil generations.simps)
  next
    case False
    have "drain ctx (s\<lparr>configurers := map stepConfigurer ts @ []\<rparr>) w =
          drain ctx (s\<lparr>configurers := map stepConfigurer (concat (map enqueues ts))\<rparr>)
            (fold action ts w)"
      by (subst drain_generation) (simp add: runAll_steps)
    also have "\<dots> = Some (Inr (s\<lparr>configurers := []\<rparr>),
        fold action (generations (concat (map enqueues ts))) (fold action ts w))"
      using "1.IH" [OF False] by simp
    finally show ?thesis using False by (subst generations.simps) simp
  qed
qed

lemmas step_defs = stepA_def stepB_def stepC_def stepD_def stepE_def stepInit_def
  namedStep_def failure_def

text \<open>
  \<^bold>\<open>C7.\<close> If a configuration step returns an error while the queue is drained,
  construction fails at once: \<^verbatim>\<open>New\<close> returns the error and no site, and the world
  is as the failing step left it, so neither the steps still queued nor those enqueued
  in the meantime are invoked. In the first part the steps \<open>pre\<close> queued before the
  failing step \<open>c\<close> run and succeed and \<open>post\<close> is queued behind it; the second part
  is the initial step itself failing.
\<close>

theorem New_fails_fast:
  "(\<forall>s1 w1 err s2 w2.
      runAll pre ctx (s\<lparr>configurers := post\<rparr>) w = (Inr s1, w1) \<and>
      invoke c ctx s1 w1 = (Some err, s2, w2) \<longrightarrow>
      drain ctx (s\<lparr>configurers := pre @ c # post\<rparr>) w = Some (Inl err, w2))
   \<and> (\<forall>err s2 w2.
      invoke c ctx (defaultSite :: 'w Site) w = (Some err, s2, w2) \<longrightarrow>
      New ctx c w = Some (Inl err, w2))"
proof (intro conjI allI impI)
  fix s1 :: "'w Site" and w1 err s2 w2
  assume a: "runAll pre ctx (s\<lparr>configurers := post\<rparr>) w = (Inr s1, w1) \<and>
      invoke c ctx s1 w1 = (Some err, s2, w2)"
  then have "runAll (pre @ [c]) ctx (s\<lparr>configurers := post\<rparr>) w = (Inl err, w2)"
    by (simp add: runAll_append)
  then show "drain ctx (s\<lparr>configurers := pre @ c # post\<rparr>) w = Some (Inl err, w2)"
    using drain_generation [where ctx = ctx and s = s and q = "pre @ [c]" and r = post and w = w]
    by simp
next
  fix err and s2 :: "'w Site" and w2
  assume "invoke c ctx (defaultSite :: 'w Site) w = (Some err, s2, w2)"
  then show "New ctx c w = Some (Inl err, w2)"
    by (simp add: New_def defaultSite_def drain_Cons)
qed

theorem New_fails_fast_witness:
  "runAll [stepA] Background (defaultSite\<lparr>configurers := [stepE]\<rparr>) [''init''] =
     (Inr (defaultSite\<lparr>configurers := [stepE, stepC]\<rparr>), [''init'', ''A''])
   \<and> invoke stepB Background (defaultSite\<lparr>configurers := [stepE, stepC]\<rparr>) [''init'', ''A''] =
     (Some failure, defaultSite\<lparr>configurers := [stepE, stepC, stepD]\<rparr>, [''init'', ''A'', ''B''])
   \<and> drain Background (defaultSite\<lparr>configurers := [stepA, stepB, stepE]\<rparr>) [''init''] =
     Some (Inl failure, [''init'', ''A'', ''B''])
   \<and> invoke stepB Background defaultSite [] =
     (Some failure, defaultSite\<lparr>configurers := [stepD]\<rparr>, [''B''])
   \<and> New Background stepB [] = Some (Inl failure, [''B''])"
proof -
  have r: "runAll [stepA] Background (defaultSite\<lparr>configurers := [stepE]\<rparr>) [''init''] =
     (Inr (defaultSite\<lparr>configurers := [stepE, stepC]\<rparr>), [''init'', ''A''])"
    by (simp add: invoke_def stepA_def namedStep_def Configure_def defaultSite_def)
  have i: "invoke stepB Background (defaultSite\<lparr>configurers := [stepE, stepC]\<rparr>) [''init'', ''A''] =
     (Some failure, defaultSite\<lparr>configurers := [stepE, stepC, stepD]\<rparr>, [''init'', ''A'', ''B''])"
    by (simp add: invoke_def stepB_def namedStep_def Configure_def defaultSite_def)
  have d: "drain Background (defaultSite\<lparr>configurers := [stepA] @ stepB # [stepE]\<rparr>) [''init''] =
     Some (Inl failure, [''init'', ''A'', ''B''])"
    using New_fails_fast [where pre = "[stepA]" and ctx = Background and s = defaultSite
        and post = "[stepE]" and w = "[''init'']" and c = stepB] r i
    by blast
  have j: "invoke stepB Background defaultSite [] =
     (Some failure, defaultSite\<lparr>configurers := [stepD]\<rparr>, [''B''])"
    by (simp add: invoke_def stepB_def namedStep_def Configure_def defaultSite_def)
  have n: "New Background stepB [] = Some (Inl failure, [''B''])"
    using New_fails_fast [where ctx = Background and c = stepB and w = "[]"
        and s = "defaultSite :: string list Site" and pre = "[]" and post = "[]"] j
    by blast
  show ?thesis using r i d j n by simp
qed

text \<open>
  \<^bold>\<open>C4\<close> says that construction drains the queue to empty for every initial step and
  every pattern of steps that enqueue steps. A step that enqueues itself again is such
  a pattern, and with it the loop of \<^verbatim>\<open>New\<close> never ends: \<open>None\<close> is the construction
  that does not return.
\<close>

theorem New_never_returns: "New Background (forever :: unit Configurer) () = None"
  by (simp add: New_def drain_forever)

text \<open>
  \<^bold>\<open>C4, as the code has it.\<close> The queue is first in, first out, for every pattern of
  steps: the steps \<open>q\<close> at the front of the queue run one after the other, each once,
  before any step behind them or enqueued by them; when a step \<open>c\<close> runs with \<open>q\<close>
  queued, what it enqueues goes behind \<open>q\<close>, and the steps of \<open>q\<close> all run before any
  of it. When construction returns a site, its queue is empty. When no step fails and the
  steps form a finite tree, construction does return, having run every step once,
  generation by generation.
\<close>

theorem queue_generations:
  "drain ctx (s\<lparr>configurers := q @ r\<rparr>) w =
     (case runAll q ctx (s\<lparr>configurers := r\<rparr>) w of
        (Inl err, w') \<Rightarrow> Some (Inl err, w')
      | (Inr s', w') \<Rightarrow> drain ctx s' w')
   \<and> (\<forall>s1 w1. invoke c ctx (s\<lparr>configurers := q\<rparr>) w = (None, s1, w1) \<longrightarrow>
        (\<exists>new. configurers s1 = q @ new \<and>
           drain ctx (s\<lparr>configurers := c # q\<rparr>) w =
             (case runAll q ctx (s1\<lparr>configurers := new\<rparr>) w1 of
                (Inl err, w') \<Rightarrow> Some (Inl err, w')
              | (Inr s', w') \<Rightarrow> drain ctx s' w')))
   \<and> (\<forall>s' w'. New ctx c w = Some (Inr s', w') \<longrightarrow> configurers s' = [])
   \<and> New ctx (stepConfigurer t) w = Some (Inr defaultSite, fold action (generations [t]) w)"
proof (intro conjI allI impI)
  show "drain ctx (s\<lparr>configurers := q @ r\<rparr>) w =
     (case runAll q ctx (s\<lparr>configurers := r\<rparr>) w of
        (Inl err, w') \<Rightarrow> Some (Inl err, w')
      | (Inr s', w') \<Rightarrow> drain ctx s' w')"
    by (rule drain_generation)
next
  fix s1 w1
  assume inv: "invoke c ctx (s\<lparr>configurers := q\<rparr>) w = (None, s1, w1)"
  obtain new where new: "configurers s1 = q @ new"
    using configurers_invoke [OF inv] by auto
  have "drain ctx (s\<lparr>configurers := c # q\<rparr>) w = drain ctx s1 w1"
    using drain_Cons [where s = "s\<lparr>configurers := c # q\<rparr>" and c = c and rest = q
        and ctx = ctx and w = w] inv by simp
  also have "s1 = s1\<lparr>configurers := q @ new\<rparr>" using new by simp
  also have "drain ctx (s1\<lparr>configurers := q @ new\<rparr>) w1 =
      (case runAll q ctx (s1\<lparr>configurers := new\<rparr>) w1 of
                (Inl err, w') \<Rightarrow> Some (Inl err, w')
              | (Inr s', w') \<Rightarrow> drain ctx s' w')"
    by (rule drain_generation)
  finally show "\<exists>new. configurers s1 = q @ new \<and>
           drain ctx (s\<lparr>configurers := c # q\<rparr>) w =
             (case runAll q ctx (s1\<lparr>configurers := new\<rparr>) w1 of
                (Inl err, w') \<Rightarrow> Some (Inl err, w')
              | (Inr s', w') \<Rightarrow> drain ctx s' w')"
    using new by blast
next
  fix s' w'
  assume "New ctx c w = Some (Inr s', w')"
  then show "configurers s' = []"
    unfolding New_def by (rule drain_empty_queue)
next
  have "drain ctx ((defaultSite :: 'a Site)\<lparr>configurers := map stepConfigurer [t]\<rparr>) w =
      Some (Inr ((defaultSite :: 'a Site)\<lparr>configurers := []\<rparr>), fold action (generations [t]) w)"
    by (rule drain_steps)
  then show "New ctx (stepConfigurer t) w = Some (Inr defaultSite, fold action (generations [t]) w)"
    by (simp add: New_def defaultSite_def)
qed

theorem queue_generations_witness:
  "invoke stepA Background (defaultSite\<lparr>configurers := [stepE]\<rparr>) [] =
     (None, defaultSite\<lparr>configurers := [stepE, stepC]\<rparr>, [''A''])
   \<and> drain Background (defaultSite\<lparr>configurers := [stepA, stepE]\<rparr>) [] =
     Some (Inr defaultSite, [''A'', ''E'', ''C''])
   \<and> New Background (stepConfigurer stepTree) [] =
     Some (Inr defaultSite, [''root'', ''a'', ''b'', ''c'', ''d'', ''e''])
   \<and> configurers (defaultSite :: string list Site) = []"
proof -
  note T = queue_generations [where ctx = Background and s = "defaultSite :: string list Site"
      and c = stepA and q = "[stepE]" and w = "[]" and r = "[]" and t = stepTree]
  have i: "invoke stepA Background (defaultSite\<lparr>configurers := [stepE]\<rparr>) [] =
     (None, defaultSite\<lparr>configurers := [stepE, stepC]\<rparr>, [''A''])"
    by (simp add: invoke_def stepA_def namedStep_def Configure_def defaultSite_def)
  obtain new where new: "configurers (defaultSite\<lparr>configurers := [stepE, stepC]\<rparr>
        :: string list Site) = [stepE] @ new"
    and d: "drain Background (defaultSite\<lparr>configurers := [stepA, stepE]\<rparr>) [] =
      (case runAll [stepE] Background
              ((defaultSite\<lparr>configurers := [stepE, stepC]\<rparr>)\<lparr>configurers := new\<rparr>) [''A''] of
         (Inl err, w') \<Rightarrow> Some (Inl err, w')
       | (Inr s', w') \<Rightarrow> drain Background s' w')"
    using T i by blast
  have new': "new = [stepC]" using new by simp
  have d': "drain Background (defaultSite\<lparr>configurers := [stepA, stepE]\<rparr>) [] =
     Some (Inr defaultSite, [''A'', ''E'', ''C''])"
    unfolding d new'
    by (simp add: invoke_def stepE_def stepC_def namedStep_def defaultSite_def drain_Cons drain_Nil)
  have g: "generations [stepTree] =
      [stepTree, treeStep ''a'' [treeStep ''c'' [treeStep ''e'' []]], treeStep ''b'' [treeStep ''d'' []],
       treeStep ''c'' [treeStep ''e'' []], treeStep ''d'' [], treeStep ''e'' []]"
    by (simp add: generations.simps stepTree_def treeStep_def)
  have n: "New Background (stepConfigurer stepTree) [] =
     Some (Inr defaultSite, fold action (generations [stepTree]) [])"
    using T by blast
  have n': "New Background (stepConfigurer stepTree) [] =
     Some (Inr defaultSite, [''root'', ''a'', ''b'', ''c'', ''d'', ''e''])"
    unfolding n g by (simp add: stepTree_def treeStep_def)
  have e: "configurers (defaultSite :: string list Site) = []"
    using queue_generations [where ctx = Background and s = "defaultSite :: string list Site"
      and c = "stepConfigurer stepTree" and q = "[]" and w = "[]" and r = "[]" and t = stepTree] n'
    by blast
  show ?thesis using i d' n' e by simp
qed

subsection \<open>The phases of Build\<close>

lemma Build_render_phase:
  assumes "RemoveAll os (OutputDir s) w = (None, w1)"
    and "MkdirAll os (OutputDir s) w1 = (None, w2)"
    and "runCommands os ctx s lg w2 = (None, lg3, w3)"
    and "copyAssets os (s, lg3, w3) = Some (None, st4)"
    and "copyPublicFiles os st4 = Some (None, s5, lg5, w5)"
  shows "Build os ord ctx (s, lg, w) =
         Some (None, s5, renderLoop os ctx s5 (rangeMap ord (renderers s5)) lg5 w5)"
  using assms by (simp add: Build_def split: prod.splits)

lemma render_log:
  "fst (snd (render os ctx s fname renderer lg w)) =
   lg @ [Printf ''rendering %s\<newline>'' [Str fname]]"
  by (simp add: render_def Let_def split: prod.splits option.splits sum.splits)

lemma renderLoop_append:
  "renderLoop os ctx s (pre @ post) lg w =
   (case renderLoop os ctx s pre lg w of (lg1, w1) \<Rightarrow> renderLoop os ctx s post lg1 w1)"
  by (induction pre arbitrary: lg w) (auto split: prod.splits option.splits)

lemma renderLoop_log_grows:
  "set lg \<subseteq> set (fst (renderLoop os ctx s items lg w))"
proof (induction items arbitrary: lg w)
  case Nil
  show ?case by simp
next
  case (Cons item items)
  obtain fname renderer where item: "item = (fname, renderer)" by (cases item)
  obtain e lg' w' where r: "render os ctx s fname renderer lg w = (e, lg', w')"
    by (cases "render os ctx s fname renderer lg w") auto
  have lg': "lg' = lg @ [Printf ''rendering %s\<newline>'' [Str fname]]"
    using render_log [of os ctx s fname renderer lg w] r by simp
  show ?case
  proof (cases e)
    case None
    then show ?thesis using Cons.IH [of lg' w'] item r lg' by auto
  next
    case (Some err)
    then show ?thesis
      using Cons.IH [of "lg' @ [Printf ''error rendering %s: %s\<newline>'' [Str fname, Err err]]" w']
        item r lg' by auto
  qed
qed

lemma renderLoop_rendering_logged:
  "(fname, renderer) \<in> set items \<Longrightarrow>
   Printf ''rendering %s\<newline>'' [Str fname] \<in> set (fst (renderLoop os ctx s items lg w))"
proof (induction items arbitrary: lg w)
  case Nil
  then show ?case by simp
next
  case (Cons item items)
  obtain fname0 renderer0 where item: "item = (fname0, renderer0)" by (cases item)
  obtain e lg' w' where r: "render os ctx s fname0 renderer0 lg w = (e, lg', w')"
    by (cases "render os ctx s fname0 renderer0 lg w") auto
  have lg': "lg' = lg @ [Printf ''rendering %s\<newline>'' [Str fname0]]"
    using render_log [of os ctx s fname0 renderer0 lg w] r by simp
  define lg'' where "lg'' = (case e of None \<Rightarrow> lg'
    | Some err \<Rightarrow> lg' @ [Printf ''error rendering %s: %s\<newline>'' [Str fname0, Err err]])"
  have loop: "renderLoop os ctx s (item # items) lg w = renderLoop os ctx s items lg'' w'"
    using item r by (simp add: lg''_def split: option.splits)
  show ?case
  proof (cases "(fname, renderer) = item")
    case True
    then have "Printf ''rendering %s\<newline>'' [Str fname] \<in> set lg''"
      using item lg' by (auto simp: lg''_def split: option.splits)
    then show ?thesis using renderLoop_log_grows [of lg'' os ctx s items w'] loop by auto
  next
    case False
    then have "(fname, renderer) \<in> set items" using Cons.prems by auto
    then show ?thesis using Cons.IH loop by simp
  qed
qed

lemma rangeMap_registered:
  "m fname = Some renderer \<Longrightarrow> fname \<in> set ord \<Longrightarrow> (fname, renderer) \<in> set (rangeMap ord m)"
  by (induction ord) (auto simp: rangeMap_def)

lemma render_failed_renderer:
  assumes "MkdirAll os (Dir (OutputDir s @ ''/'' @ fname)) w = (None, w1)"
    and "Create os (OutputDir s @ ''/'' @ fname) w1 = (Inr f, w2)"
    and "renderer ctx (SiteData.truncate s) f w2 = (Some err, w3)"
  shows "render os ctx s fname renderer lg w =
         (Some err, lg @ [Printf ''rendering %s\<newline>'' [Str fname]], snd (Close os f w3))"
  using assms by (simp add: render_def Let_def)

text \<open>
  \<^bold>\<open>C2.\<close> \<^verbatim>\<open>Build\<close> runs its phases in one order, each in the world the one before
  left: the output directory is removed, then created again, then the commands run, then
  the assets are copied, then the public files, then the pages are rendered. When removing
  or creating the output directory, running the commands, copying the assets or copying
  the public files fails, \<^verbatim>\<open>Build\<close> returns at once: its error is the cause, wrapped
  with a message that names the phase, and the site, the log and the world are those the
  failing phase left, so no later phase has run. When none of them fails, \<^verbatim>\<open>Build\<close>
  returns no error, with the log and the world the render loop left.
\<close>

theorem Build_phases:
  "\<forall>e1 w1. RemoveAll os (OutputDir s) w = (e1, w1) \<longrightarrow>
   (case e1 of
      Some err \<Rightarrow> Build os ord ctx (s, lg, w) =
        Some (Some (Errorf ''remove output dir: %w'' [Err err]), s, lg, w1)
    | None \<Rightarrow>
   (\<forall>e2 w2. MkdirAll os (OutputDir s) w1 = (e2, w2) \<longrightarrow>
   (case e2 of
      Some err \<Rightarrow> Build os ord ctx (s, lg, w) =
        Some (Some (Errorf ''create output dir: %w'' [Err err]), s, lg, w2)
    | None \<Rightarrow>
   (\<forall>e3 lg3 w3. runCommands os ctx s lg w2 = (e3, lg3, w3) \<longrightarrow>
   (case e3 of
      Some err \<Rightarrow> Build os ord ctx (s, lg, w) =
        Some (Some (Errorf ''run commands: %w'' [Err err]), s, lg3, w3)
    | None \<Rightarrow>
   (\<forall>e4 st4. copyAssets os (s, lg3, w3) = Some (e4, st4) \<longrightarrow>
   (case e4 of
      Some err \<Rightarrow> Build os ord ctx (s, lg, w) =
        Some (Some (Errorf ''copy assets: %w'' [Err err]), st4)
    | None \<Rightarrow>
   (\<forall>e5 s5 lg5 w5. copyPublicFiles os st4 = Some (e5, s5, lg5, w5) \<longrightarrow>
   (case e5 of
      Some err \<Rightarrow> Build os ord ctx (s, lg, w) =
        Some (Some (Errorf ''copy public files: %w'' [Err err]), s5, lg5, w5)
    | None \<Rightarrow> Build os ord ctx (s, lg, w) =
        Some (None, s5, renderLoop os ctx s5 (rangeMap ord (renderers s5)) lg5 w5))))))))))"
  by (simp add: Build_def split: option.splits prod.splits)

text \<open>
  \<^bold>\<open>C3.\<close> In the render phase a renderer that fails stops nothing. Wherever the failing
  page stands in the order the map is ranged over, with the pages \<open>pre\<close> before it and
  \<open>post\<close> after it, the loop logs the failure with the page's path and goes on with
  \<open>post\<close>. Every page the loop is given is rendered, whatever the others did: its line
  \<^verbatim>\<open>rendering\<close> is in the log at the end, and no line logged before is lost. Every
  registered page whose path the iteration order holds is given to the loop. And once the
  phases before have succeeded, \<^verbatim>\<open>Build\<close> returns no error, whatever the renderers
  returned.
\<close>

theorem render_failure_isolated:
  "(\<forall>lg1 w1 err lg2 w2.
      renderLoop os ctx s pre lg w = (lg1, w1) \<and>
      render os ctx s fname renderer lg1 w1 = (Some err, lg2, w2) \<longrightarrow>
      renderLoop os ctx s (pre @ (fname, renderer) # post) lg w =
        renderLoop os ctx s post
          (lg2 @ [Printf ''error rendering %s: %s\<newline>'' [Str fname, Err err]]) w2)
   \<and> (\<forall>f r. (f, r) \<in> set items \<longrightarrow>
        Printf ''rendering %s\<newline>'' [Str f] \<in> set (fst (renderLoop os ctx s items lg w)))
   \<and> set lg \<subseteq> set (fst (renderLoop os ctx s items lg w))
   \<and> (\<forall>f r. renderers s f = Some r \<and> f \<in> set ord \<longrightarrow> (f, r) \<in> set (rangeMap ord (renderers s)))
   \<and> (\<forall>w1 w2 lg3 w3 st4 s5 lg5 w5.
        RemoveAll os (OutputDir s) w = (None, w1) \<and>
        MkdirAll os (OutputDir s) w1 = (None, w2) \<and>
        runCommands os ctx s lg w2 = (None, lg3, w3) \<and>
        copyAssets os (s, lg3, w3) = Some (None, st4) \<and>
        copyPublicFiles os st4 = Some (None, s5, lg5, w5) \<longrightarrow>
        Build os ord ctx (s, lg, w) =
          Some (None, s5, renderLoop os ctx s5 (rangeMap ord (renderers s5)) lg5 w5))"
proof (intro conjI allI impI)
  fix lg1 w1 err lg2 w2
  assume "renderLoop os ctx s pre lg w = (lg1, w1) \<and>
      render os ctx s fname renderer lg1 w1 = (Some err, lg2, w2)"
  then show "renderLoop os ctx s (pre @ (fname, renderer) # post) lg w =
        renderLoop os ctx s post
          (lg2 @ [Printf ''error rendering %s: %s\<newline>'' [Str fname, Err err]]) w2"
    by (simp add: renderLoop_append)
next
  fix f r
  assume "(f, r) \<in> set items"
  then show "Printf ''rendering %s\<newline>'' [Str f] \<in> set (fst (renderLoop os ctx s items lg w))"
    by (rule renderLoop_rendering_logged)
next
  show "set lg \<subseteq> set (fst (renderLoop os ctx s items lg w))"
    by (rule renderLoop_log_grows)
next
  fix f r
  assume "renderers s f = Some r \<and> f \<in> set ord"
  then show "(f, r) \<in> set (rangeMap ord (renderers s))"
    by (simp add: rangeMap_registered)
next
  fix w1 w2 lg3 w3 st4 s5 lg5 w5
  assume "RemoveAll os (OutputDir s) w = (None, w1) \<and>
        MkdirAll os (OutputDir s) w1 = (None, w2) \<and>
        runCommands os ctx s lg w2 = (None, lg3, w3) \<and>
        copyAssets os (s, lg3, w3) = Some (None, st4) \<and>
        copyPublicFiles os st4 = Some (None, s5, lg5, w5)"
  then show "Build os ord ctx (s, lg, w) =
          Some (None, s5, renderLoop os ctx s5 (rangeMap ord (renderers s5)) lg5 w5)"
    by (elim conjE) (rule Build_render_phase)
qed

text \<open>
  \<^bold>\<open>C10.\<close> Rendering a page is not atomic. The output file is created, by the call
  \<^verbatim>\<open>os.Create\<close>, before the renderer is invoked, and the renderer writes into the
  world that call left. When the renderer fails, the file is closed and nothing else is
  done to it: the world is the one the renderer left, closed, and the error is only
  logged. So what the renderer had written when it failed, possibly nothing, stays under
  the page's path (closing a file does not change its content), and when the phases
  before have succeeded and this is the only page, \<^verbatim>\<open>Build\<close> returns no error with
  that file in place.
\<close>

theorem render_leaves_file:
  "\<forall>w1 f w2 err w3.
     MkdirAll os (Dir (OutputDir s @ ''/'' @ fname)) w = (None, w1) \<and>
     Create os (OutputDir s @ ''/'' @ fname) w1 = (Inr f, w2) \<and>
     renderer ctx (SiteData.truncate s) f w2 = (Some err, w3) \<longrightarrow>
     render os ctx s fname renderer lg w =
       (Some err, lg @ [Printf ''rendering %s\<newline>'' [Str fname]], snd (Close os f w3))
     \<and> renderLoop os ctx s [(fname, renderer)] lg w =
       (lg @ [Printf ''rendering %s\<newline>'' [Str fname],
              Printf ''error rendering %s: %s\<newline>'' [Str fname, Err err]],
        snd (Close os f w3))
     \<and> ((\<forall>w'. ReadFile os (OutputDir s @ ''/'' @ fname) (snd (Close os f w')) =
                ReadFile os (OutputDir s @ ''/'' @ fname) w') \<longrightarrow>
          ReadFile os (OutputDir s @ ''/'' @ fname)
            (snd (renderLoop os ctx s [(fname, renderer)] lg w)) =
          ReadFile os (OutputDir s @ ''/'' @ fname) w3)
     \<and> (\<forall>s0 lg0 w0 wa wb lgc wc st4.
          RemoveAll os (OutputDir s0) w0 = (None, wa) \<and>
          MkdirAll os (OutputDir s0) wa = (None, wb) \<and>
          runCommands os ctx s0 lg0 wb = (None, lgc, wc) \<and>
          copyAssets os (s0, lgc, wc) = Some (None, st4) \<and>
          copyPublicFiles os st4 = Some (None, s, lg, w) \<and>
          rangeMap ord (renderers s) = [(fname, renderer)] \<longrightarrow>
          Build os ord ctx (s0, lg0, w0) =
            Some (None, s,
                  lg @ [Printf ''rendering %s\<newline>'' [Str fname],
                        Printf ''error rendering %s: %s\<newline>'' [Str fname, Err err]],
                  snd (Close os f w3)))"
proof (intro allI impI)
  fix w1 f w2 err w3
  assume a: "MkdirAll os (Dir (OutputDir s @ ''/'' @ fname)) w = (None, w1) \<and>
     Create os (OutputDir s @ ''/'' @ fname) w1 = (Inr f, w2) \<and>
     renderer ctx (SiteData.truncate s) f w2 = (Some err, w3)"
  then have r: "render os ctx s fname renderer lg w =
       (Some err, lg @ [Printf ''rendering %s\<newline>'' [Str fname]], snd (Close os f w3))"
    by (elim conjE) (rule render_failed_renderer)
  then have l: "renderLoop os ctx s [(fname, renderer)] lg w =
       (lg @ [Printf ''rendering %s\<newline>'' [Str fname],
              Printf ''error rendering %s: %s\<newline>'' [Str fname, Err err]],
        snd (Close os f w3))"
    by simp
  have b: "Build os ord ctx (s0, lg0, w0) =
            Some (None, s,
                  lg @ [Printf ''rendering %s\<newline>'' [Str fname],
                        Printf ''error rendering %s: %s\<newline>'' [Str fname, Err err]],
                  snd (Close os f w3))"
    if "RemoveAll os (OutputDir s0) w0 = (None, wa) \<and>
          MkdirAll os (OutputDir s0) wa = (None, wb) \<and>
          runCommands os ctx s0 lg0 wb = (None, lgc, wc) \<and>
          copyAssets os (s0, lgc, wc) = Some (None, st4) \<and>
          copyPublicFiles os st4 = Some (None, s, lg, w) \<and>
          rangeMap ord (renderers s) = [(fname, renderer)]"
    for s0 lg0 w0 wa wb lgc wc st4
  proof -
    have "Build os ord ctx (s0, lg0, w0) =
        Some (None, s, renderLoop os ctx s (rangeMap ord (renderers s)) lg w)"
      using that by (elim conjE) (rule Build_render_phase)
    then show ?thesis using that l by simp
  qed
  show "render os ctx s fname renderer lg w =
       (Some err, lg @ [Printf ''rendering %s\<newline>'' [Str fname]], snd (Close os f w3))
     \<and> renderLoop os ctx s [(fname, renderer)] lg w =
       (lg @ [Printf ''rendering %s\<newline>'' [Str fname],
              Printf ''error rendering %s: %s\<newline>'' [Str fname, Err err]],
        snd (Close os f w3))
     \<and> ((\<forall>w'. ReadFile os (OutputDir s @ ''/'' @ fname) (snd (Close os f w')) =
                ReadFile os (OutputDir s @ ''/'' @ fname) w') \<longrightarrow>
          ReadFile os (OutputDir s @ ''/'' @ fname)
            (snd (renderLoop os ctx s [(fname, renderer)] lg w)) =
          ReadFile os (OutputDir s @ ''/'' @ fname) w3)
     \<and> (\<forall>s0 lg0 w0 wa wb lgc wc st4.
          RemoveAll os (OutputDir s0) w0 = (None, wa) \<and>
          MkdirAll os (OutputDir s0) wa = (None, wb) \<and>
          runCommands os ctx s0 lg0 wb = (None, lgc, wc) \<and>
          copyAssets os (s0, lgc, wc) = Some (None, st4) \<and>
          copyPublicFiles os st4 = Some (None, s, lg, w) \<and>
          rangeMap ord (renderers s) = [(fname, renderer)] \<longrightarrow>
          Build os ord ctx (s0, lg0, w0) =
            Some (None, s,
                  lg @ [Printf ''rendering %s\<newline>'' [Str fname],
                        Printf ''error rendering %s: %s\<newline>'' [Str fname, Err err]],
                  snd (Close os f w3)))"
  proof (intro conjI)
    show "render os ctx s fname renderer lg w =
       (Some err, lg @ [Printf ''rendering %s\<newline>'' [Str fname]], snd (Close os f w3))"
      by (rule r)
    show "renderLoop os ctx s [(fname, renderer)] lg w =
       (lg @ [Printf ''rendering %s\<newline>'' [Str fname],
              Printf ''error rendering %s: %s\<newline>'' [Str fname, Err err]],
        snd (Close os f w3))"
      by (rule l)
    show "(\<forall>w'. ReadFile os (OutputDir s @ ''/'' @ fname) (snd (Close os f w')) =
                ReadFile os (OutputDir s @ ''/'' @ fname) w') \<longrightarrow>
          ReadFile os (OutputDir s @ ''/'' @ fname)
            (snd (renderLoop os ctx s [(fname, renderer)] lg w)) =
          ReadFile os (OutputDir s @ ''/'' @ fname) w3"
      using l by simp
    show "\<forall>s0 lg0 w0 wa wb lgc wc st4.
          RemoveAll os (OutputDir s0) w0 = (None, wa) \<and>
          MkdirAll os (OutputDir s0) wa = (None, wb) \<and>
          runCommands os ctx s0 lg0 wb = (None, lgc, wc) \<and>
          copyAssets os (s0, lgc, wc) = Some (None, st4) \<and>
          copyPublicFiles os st4 = Some (None, s, lg, w) \<and>
          rangeMap ord (renderers s) = [(fname, renderer)] \<longrightarrow>
          Build os ord ctx (s0, lg0, w0) =
            Some (None, s,
                  lg @ [Printf ''rendering %s\<newline>'' [Str fname],
                        Printf ''error rendering %s: %s\<newline>'' [Str fname, Err err]],
                  snd (Close os f w3))"
      by (intro allI impI) (rule b)
  qed
qed

subsection \<open>What a build changes of the site\<close>

lemma walk_Nil: "walk os fn [] st = Some (None, st)"
  by (subst walk.simps) simp

lemma walk_Cons:
  "walk os fn (path # rest) st =
          (case Lstat os path (snd (snd st)) of
             Inl err \<Rightarrow>
               (case fn path nilInfo (Some err) st of
                  (Some e, st') \<Rightarrow> Some (Some e, st')
                | (None, st') \<Rightarrow> walk os fn rest st')
           | Inr info \<Rightarrow>
               if \<not> IsDir info then
                 (case fn path info None st of
                    (Some e, st') \<Rightarrow> Some (Some e, st')
                  | (None, st') \<Rightarrow> walk os fn rest st')
               else
                 (case ReadDirNames os path (snd (snd st)) of
                    Inl err \<Rightarrow>
                      (case fn path info (Some err) st of
                         (Some e, st') \<Rightarrow> Some (Some e, st')
                       | (None, st') \<Rightarrow> walk os fn rest st')
                  | Inr names \<Rightarrow>
                      (case fn path info None st of
                         (Some e, st') \<Rightarrow> Some (Some e, st')
                       | (None, st') \<Rightarrow>
                           walk os fn (map (\<lambda>name. Join [path, name]) names @ rest) st')))"
  by (subst walk.simps) simp

lemma walk_invariant:
  assumes step: "\<And>path info err st e st'. fn path info err st = (e, st') \<Longrightarrow> I st \<Longrightarrow> I st'"
    and run: "walk os fn stack st = Some (r, st')"
    and init: "I st"
  shows "I st'"
proof -
  have "fn0 = fn \<longrightarrow> I st0 \<longrightarrow> I (snd y)" if "walk os0 fn0 stack0 st0 = Some y"
    for os0 fn0 stack0 st0 y
  proof (rule walk.raw_induct [where P = "\<lambda>os0 fn0 stack0 st0 y. fn0 = fn \<longrightarrow> I st0 \<longrightarrow> I (snd y)"])
    show "walk os0 fn0 stack0 st0 = Some y" by (rule that)
  next
    fix walk' :: "'a OS \<Rightarrow> 'a WalkFunc \<Rightarrow> string list \<Rightarrow> 'a state \<Rightarrow> (error option \<times> 'a state) option"
    fix os fn1 stack st y
    assume IH: "\<And>os fn1 stack st y. walk' os fn1 stack st = Some y \<Longrightarrow> fn1 = fn \<longrightarrow> I st \<longrightarrow> I (snd y)"
    assume body: "(case stack of
        [] \<Rightarrow> Some (None, st)
      | path # rest \<Rightarrow>
          (case Lstat os path (snd (snd st)) of
             Inl err \<Rightarrow>
               (case fn1 path nilInfo (Some err) st of
                  (None, st') \<Rightarrow> walk' os fn1 rest st'
                | (Some e, st') \<Rightarrow> Some (Some e, st'))
           | Inr info \<Rightarrow>
               if \<not> IsDir info then
                 (case fn1 path info None st of
                    (None, st') \<Rightarrow> walk' os fn1 rest st'
                  | (Some e, st') \<Rightarrow> Some (Some e, st'))
               else
                 (case ReadDirNames os path (snd (snd st)) of
                    Inl err \<Rightarrow>
                      (case fn1 path info (Some err) st of
                         (None, st') \<Rightarrow> walk' os fn1 rest st'
                       | (Some e, st') \<Rightarrow> Some (Some e, st'))
                  | Inr names \<Rightarrow>
                      (case fn1 path info None st of
                         (None, st') \<Rightarrow>
                           walk' os fn1 (map (\<lambda>name. Join [path, name]) names @ rest) st'
                       | (Some e, st') \<Rightarrow> Some (Some e, st'))))) = Some y"
    show "fn1 = fn \<longrightarrow> I st \<longrightarrow> I (snd y)"
    proof (intro impI)
      assume eq: "fn1 = fn" and inv: "I st"
      show "I (snd y)"
      proof (cases stack)
        case Nil
        then show ?thesis using body inv by auto
      next
        case (Cons path rest)
        have visit: "I (snd y)"
          if "(case fn path info err st of
                 (None, st') \<Rightarrow> walk' os fn stk st'
               | (Some e, st') \<Rightarrow> Some (Some e, st')) = Some y" for info err stk
        proof -
          obtain e st' where c: "fn path info err st = (e, st')"
            by (cases "fn path info err st") auto
          have i: "I st'" using step [OF c inv] .
          show ?thesis
          proof (cases e)
            case None
            then have "walk' os fn stk st' = Some y" using that c by simp
            from IH [OF this] i show ?thesis by simp
          next
            case (Some e')
            then show ?thesis using that c i by auto
          qed
        qed
        show ?thesis
          using body Cons eq
          by (auto split: sum.splits if_splits dest: visit)
      qed
    qed
  qed
  from this [OF run] init show ?thesis by simp
qed

lemma registriesKept_refl: "registriesKept s s"
  by (simp add: registriesKept_def)

lemma registriesKept_trans:
  "registriesKept s s' \<Longrightarrow> registriesKept s' s'' \<Longrightarrow> registriesKept s s''"
  by (auto simp: registriesKept_def)

lemma copyAssetsFn_kept:
  "copyAssetsFn os path info err (s, lg, w) = (e, s', lg', w') \<Longrightarrow> registriesKept s s'"
  by (auto simp: copyAssetsFn_def registriesKept_def Let_def
      split: option.splits if_splits prod.splits sum.splits)

lemma copyPublicFilesFn_site:
  "copyPublicFilesFn os path info err (s, lg, w) = (e, s', lg', w') \<Longrightarrow> s' = s"
  by (auto simp: copyPublicFilesFn_def Let_def
      split: option.splits if_splits prod.splits sum.splits)

lemma copyAssets_kept:
  assumes "copyAssets os (s, lg, w) = Some (e, s', lg', w')"
  shows "registriesKept s s'"
proof (cases "case Stat os (AssetsDir s) w of Inl err \<Rightarrow> IsNotExist err | Inr info \<Rightarrow> False")
  case True
  then show ?thesis using assms by (simp add: copyAssets_def registriesKept_refl)
next
  case False
  then have run: "walk os (copyAssetsFn os) [AssetsDir s] (s, lg, w) = Some (e, s', lg', w')"
    using assms by (simp add: copyAssets_def Walk_def)
  have "registriesKept s (fst (s', lg', w'))"
  proof (rule walk_invariant [where I = "\<lambda>st. registriesKept s (fst st)", OF _ run])
    show "registriesKept s (fst (s, lg, w))" by (simp add: registriesKept_refl)
  next
    fix path info err st e st'
    assume "copyAssetsFn os path info err st = (e, st')" and "registriesKept s (fst st)"
    then show "registriesKept s (fst st')"
      using copyAssetsFn_kept [of os path info err "fst st" "fst (snd st)" "snd (snd st)"
          e "fst st'" "fst (snd st')" "snd (snd st')"]
      by (auto intro: registriesKept_trans)
  qed
  then show ?thesis by simp
qed

lemma copyPublicFiles_site:
  assumes "copyPublicFiles os (s, lg, w) = Some (e, s', lg', w')"
  shows "s' = s"
proof (cases "case Stat os (PublicDir s) w of Inl err \<Rightarrow> IsNotExist err | Inr info \<Rightarrow> False")
  case True
  then show ?thesis using assms by (simp add: copyPublicFiles_def)
next
  case False
  then have run: "walk os (copyPublicFilesFn os) [PublicDir s] (s, lg, w) = Some (e, s', lg', w')"
    using assms by (simp add: copyPublicFiles_def Walk_def)
  have "fst (s', lg', w') = s"
  proof (rule walk_invariant [where I = "\<lambda>st. fst st = s", OF _ run])
    show "fst (s, lg, w) = s" by simp
  next
    fix path info err st e st'
    assume "copyPublicFilesFn os path info err st = (e, st')" and "fst st = s"
    then show "fst st' = s"
      using copyPublicFilesFn_site [of os path info err "fst st" "fst (snd st)" "snd (snd st)"
          e "fst st'" "fst (snd st')" "snd (snd st')"]
      by auto
  qed
  then show ?thesis by simp
qed

lemma Build_site:
  assumes "Build os ord ctx (s, lg, w) = Some (r, s', lg', w')"
  shows "s' = s \<or> (\<exists>lg3 w3 e4 lg4 w4. copyAssets os (s, lg3, w3) = Some (e4, s', lg4, w4))"
  using assms
  by (auto simp: Build_def split: prod.splits option.splits dest!: copyPublicFiles_site)

lemma assets_fold_perform: "assets (fold perform calls s) = assets s"
proof (induction calls arbitrary: s)
  case Nil
  show ?case by simp
next
  case (Cons call calls)
  have "assets (perform call s) = assets s"
    by (cases call) (simp_all add: Configure_def Render_def Run_def)
  then show ?case using Cons.IH [of "perform call s"] by simp
qed

lemma assets_invoke: "invoke c ctx s w = (e, s', w') \<Longrightarrow> assets s' = assets s"
  by (auto simp: invoke_def assets_fold_perform split: prod.splits)

lemma drain_assets:
  assumes "drain ctx s w = Some (Inr s', w')"
  shows "assets s' = assets s"
proof -
  have "\<forall>s' w'. y = (Inr s', w') \<longrightarrow> assets s' = assets s" if "drain ctx s w = Some y" for y
  proof (rule drain.raw_induct
      [where P = "\<lambda>ctx s w y. \<forall>s' w'. y = (Inr s', w') \<longrightarrow> assets s' = assets s"])
    show "drain ctx s w = Some y" by (rule that)
  next
    fix drain' :: "Context \<Rightarrow> 'a Site \<Rightarrow> 'a \<Rightarrow> ((error + 'a Site) \<times> 'a) option"
    fix ctx s w y
    assume IH: "\<And>ctx s w y. drain' ctx s w = Some y
        \<Longrightarrow> \<forall>s' w'. y = (Inr s', w') \<longrightarrow> assets s' = assets s"
    assume body: "(case configurers s of [] \<Rightarrow> Some (Inr s, w)
      | configurer # rest \<Rightarrow>
          (case invoke configurer ctx (s\<lparr>configurers := rest\<rparr>) w of
            (None, s', w') \<Rightarrow> drain' ctx s' w'
          | (Some err, s', w') \<Rightarrow> Some (Inl err, w'))) = Some y"
    show "\<forall>s' w'. y = (Inr s', w') \<longrightarrow> assets s' = assets s"
    proof (cases "configurers s")
      case Nil
      then show ?thesis using body by auto
    next
      case (Cons c rest)
      show ?thesis
      proof (intro allI impI)
        fix s' w'
        assume y: "y = (Inr s', w')"
        obtain e s1 w1 where inv: "invoke c ctx (s\<lparr>configurers := rest\<rparr>) w = (e, s1, w1)"
          by (cases "invoke c ctx (s\<lparr>configurers := rest\<rparr>) w") auto
        have a1: "assets s1 = assets s" using assets_invoke [OF inv] by simp
        have "drain' ctx s1 w1 = Some y" using body Cons inv y by (cases e) auto
        then have "assets s' = assets s1" using IH y by blast
        then show "assets s' = assets s" using a1 by simp
      qed
    qed
  qed
  with assms show ?thesis by blast
qed

text \<open>
  \<^bold>\<open>C6, as the code has it.\<close> A build leaves the renderers, the commands, the queue and
  the three directories of the site as they were, and removes no entry of the asset table:
  the site it returns is the one it was given, or the one \<^verbatim>\<open>copyAssets\<close> returned,
  which is the only phase that writes the asset table; it adds or overwrites one entry for
  every asset it copies. Copying the public files leaves the site as it was. And it is not
  during construction that the asset table is filled: the site \<^verbatim>\<open>New\<close> returns has an
  empty one.
\<close>

theorem registries_frame:
  "(\<forall>r s' lg' w'. Build os ord ctx (s, lg, w) = Some (r, s', lg', w') \<longrightarrow>
      registriesKept s s' \<and>
      (s' = s \<or> (\<exists>lg3 w3 e4 lg4 w4. copyAssets os (s, lg3, w3) = Some (e4, s', lg4, w4))))
   \<and> (\<forall>e s' lg' w'. copyPublicFiles os (s, lg, w) = Some (e, s', lg', w') \<longrightarrow> s' = s)
   \<and> (\<forall>s' w'. New ctx c w0 = Some (Inr s', w') \<longrightarrow> assets s' = Map.empty)"
proof (intro conjI allI impI)
  fix r s' lg' w'
  assume b: "Build os ord ctx (s, lg, w) = Some (r, s', lg', w')"
  from Build_site [OF b]
  show "s' = s \<or> (\<exists>lg3 w3 e4 lg4 w4. copyAssets os (s, lg3, w3) = Some (e4, s', lg4, w4))" .
  then show "registriesKept s s'"
  proof
    assume "s' = s"
    then show ?thesis by (simp add: registriesKept_refl)
  next
    assume "\<exists>lg3 w3 e4 lg4 w4. copyAssets os (s, lg3, w3) = Some (e4, s', lg4, w4)"
    then obtain lg3 w3 e4 lg4 w4 where "copyAssets os (s, lg3, w3) = Some (e4, s', lg4, w4)"
      by blast
    then show ?thesis by (rule copyAssets_kept)
  qed
next
  fix e s' lg' w'
  assume "copyPublicFiles os (s, lg, w) = Some (e, s', lg', w')"
  then show "s' = s" by (rule copyPublicFiles_site)
next
  fix s' w'
  assume "New ctx c w0 = Some (Inr s', w')"
  then show "assets s' = Map.empty"
    unfolding New_def using drain_assets by fastforce
qed

subsection \<open>Running the package in memory\<close>

lemmas mem_defs = mem_os_def mem_RemoveAll_def mem_MkdirAll_def mem_Stat_def mem_Lstat_def
  mem_ReadDirNames_def mem_ReadFile_def mem_WriteFile_def mem_Create_def mem_Open_def
  mem_Copy_def mem_Close_def mem_Getenv_def mem_RunCommand_def mem_Write_def node_at_def
  under_def

lemmas world_defs = defaultSite_def emptyWorld_def imageWorld_def publicWorld_def
  outWorld_def brokenSite_def twoPages_def brokenRenderer_def pageRenderer_def

lemmas phase_defs = runCommands_def copyAssets_def copyPublicFiles_def Walk_def walk_Nil
  walk_Cons copyAssetsFn_def copyPublicFilesFn_def render_def rangeMap_def nilInfo_def
  fingerprint_digest digest_image Let_def

text \<open>Six builds in memory, one for each way \<^verbatim>\<open>Build\<close> can return: the output directory
  cannot be removed; it cannot be created; the second of three commands exits with 1; an
  asset cannot be written; a public file cannot be created; and a build where nothing
  fails.\<close>

theorem Build_phases_witness:
  "RemoveAll mem_os ''output''
     (emptyWorld\<lparr>nodes := [(''output'', DirNode)], denied := [''output'']\<rparr>) =
     (Some (PathError ''unlinkat'' ''output'' EACCES),
      emptyWorld\<lparr>nodes := [(''output'', DirNode)], denied := [''output'']\<rparr>)
   \<and> Build mem_os [] Background
       (defaultSite, [], emptyWorld\<lparr>nodes := [(''output'', DirNode)], denied := [''output'']\<rparr>) =
     Some (Some (Errorf ''remove output dir: %w'' [Err (PathError ''unlinkat'' ''output'' EACCES)]),
           defaultSite, [], emptyWorld\<lparr>nodes := [(''output'', DirNode)], denied := [''output'']\<rparr>)
   \<and> MkdirAll mem_os ''output'' (emptyWorld\<lparr>denied := [''output'']\<rparr>) =
     (Some (PathError ''mkdir'' ''output'' EACCES), emptyWorld\<lparr>denied := [''output'']\<rparr>)
   \<and> Build mem_os [] Background (defaultSite, [], emptyWorld\<lparr>denied := [''output'']\<rparr>) =
     Some (Some (Errorf ''create output dir: %w'' [Err (PathError ''mkdir'' ''output'' EACCES)]),
           defaultSite, [], emptyWorld\<lparr>denied := [''output'']\<rparr>)
   \<and> Build mem_os [] Background
       (defaultSite\<lparr>commands := [''true'', ''false'', ''true'']\<rparr>, [], emptyWorld) =
     Some (Some (Errorf ''run commands: %w''
                   [Err (Errorf ''%q: %w\<newline>'' [Str ''false'', Err (ExitError 1)])]),
           defaultSite\<lparr>commands := [''true'', ''false'', ''true'']\<rparr>,
           [Printf ''running %q\<newline>'' [Str ''true''], Printf ''running %q\<newline>'' [Str ''false'']],
           emptyWorld\<lparr>nodes := [(''output'', DirNode)],
                      ran := [[''sh'', ''-c'', ''true''], [''sh'', ''-c'', ''false'']]\<rparr>)
   \<and> Build mem_os [] Background (defaultSite, [], imageWorld\<lparr>denied := [''output/assets'']\<rparr>) =
     Some (Some (Errorf ''copy assets: %w'' [Err (PathError ''mkdir'' ''output/assets'' EACCES)]),
           defaultSite, [],
           imageWorld\<lparr>nodes := nodes imageWorld @ [(''output'', DirNode)],
                      denied := [''output/assets'']\<rparr>)
   \<and> Build mem_os [] Background (defaultSite, [], publicWorld\<lparr>denied := [''output/robots.txt'']\<rparr>) =
     Some (Some (Errorf ''copy public files: %w''
                   [Err (PathError ''open'' ''output/robots.txt'' EACCES)]),
           defaultSite, [],
           publicWorld\<lparr>nodes := nodes publicWorld @ [(''output'', DirNode)],
                       denied := [''output/robots.txt'']\<rparr>)
   \<and> Build mem_os [''index.html''] Background
       (defaultSite\<lparr>renderers := [''index.html'' \<mapsto> pageRenderer]\<rparr>, [], publicWorld) =
     Some (None, defaultSite\<lparr>renderers := [''index.html'' \<mapsto> pageRenderer]\<rparr>,
           [Printf ''rendering %s\<newline>'' [Str ''index.html'']],
           publicWorld\<lparr>nodes := nodes publicWorld @
             [(''output'', DirNode), (''output/robots.txt'', FileNode ''robot''),
              (''output/index.html'', FileNode ''<!doctype html>'')]\<rparr>)"
proof -
  have r: "RemoveAll mem_os ''output''
     (emptyWorld\<lparr>nodes := [(''output'', DirNode)], denied := [''output'']\<rparr>) =
     (Some (PathError ''unlinkat'' ''output'' EACCES),
      emptyWorld\<lparr>nodes := [(''output'', DirNode)], denied := [''output'']\<rparr>)"
    by (simp add: mem_defs world_defs path_defs)
  have m: "MkdirAll mem_os ''output'' (emptyWorld\<lparr>denied := [''output'']\<rparr>) =
     (Some (PathError ''mkdir'' ''output'' EACCES), emptyWorld\<lparr>denied := [''output'']\<rparr>)"
    by (simp add: mem_defs world_defs path_defs)
  have b1: "Build mem_os [] Background
       (defaultSite, [], emptyWorld\<lparr>nodes := [(''output'', DirNode)], denied := [''output'']\<rparr>) =
     Some (Some (Errorf ''remove output dir: %w'' [Err (PathError ''unlinkat'' ''output'' EACCES)]),
           defaultSite, [], emptyWorld\<lparr>nodes := [(''output'', DirNode)], denied := [''output'']\<rparr>)"
    using Build_phases [where os = mem_os and s = defaultSite and ord = "[]" and ctx = Background
        and lg = "[]"
        and w = "emptyWorld\<lparr>nodes := [(''output'', DirNode)], denied := [''output'']\<rparr>"]
    by (simp add: mem_defs world_defs phase_defs path_defs)
  have b2: "Build mem_os [] Background (defaultSite, [], emptyWorld\<lparr>denied := [''output'']\<rparr>) =
     Some (Some (Errorf ''create output dir: %w'' [Err (PathError ''mkdir'' ''output'' EACCES)]),
           defaultSite, [], emptyWorld\<lparr>denied := [''output'']\<rparr>)"
    using Build_phases [where os = mem_os and s = defaultSite and ord = "[]" and ctx = Background
        and lg = "[]" and w = "emptyWorld\<lparr>denied := [''output'']\<rparr>"]
    by (simp add: mem_defs world_defs phase_defs path_defs)
  have b3: "Build mem_os [] Background
       (defaultSite\<lparr>commands := [''true'', ''false'', ''true'']\<rparr>, [], emptyWorld) =
     Some (Some (Errorf ''run commands: %w''
                   [Err (Errorf ''%q: %w\<newline>'' [Str ''false'', Err (ExitError 1)])]),
           defaultSite\<lparr>commands := [''true'', ''false'', ''true'']\<rparr>,
           [Printf ''running %q\<newline>'' [Str ''true''], Printf ''running %q\<newline>'' [Str ''false'']],
           emptyWorld\<lparr>nodes := [(''output'', DirNode)],
                      ran := [[''sh'', ''-c'', ''true''], [''sh'', ''-c'', ''false'']]\<rparr>)"
    using Build_phases [where os = mem_os
        and s = "defaultSite\<lparr>commands := [''true'', ''false'', ''true'']\<rparr>"
        and ord = "[]" and ctx = Background and lg = "[]" and w = emptyWorld]
    by (simp add: mem_defs world_defs phase_defs path_defs)
  have b4: "Build mem_os [] Background (defaultSite, [], imageWorld\<lparr>denied := [''output/assets'']\<rparr>) =
     Some (Some (Errorf ''copy assets: %w'' [Err (PathError ''mkdir'' ''output/assets'' EACCES)]),
           defaultSite, [],
           imageWorld\<lparr>nodes := nodes imageWorld @ [(''output'', DirNode)],
                      denied := [''output/assets'']\<rparr>)"
    using Build_phases [where os = mem_os and s = defaultSite and ord = "[]" and ctx = Background
        and lg = "[]" and w = "imageWorld\<lparr>denied := [''output/assets'']\<rparr>"]
    by (simp add: mem_defs world_defs phase_defs path_defs)
  have b5: "Build mem_os [] Background (defaultSite, [], publicWorld\<lparr>denied := [''output/robots.txt'']\<rparr>) =
     Some (Some (Errorf ''copy public files: %w''
                   [Err (PathError ''open'' ''output/robots.txt'' EACCES)]),
           defaultSite, [],
           publicWorld\<lparr>nodes := nodes publicWorld @ [(''output'', DirNode)],
                       denied := [''output/robots.txt'']\<rparr>)"
    using Build_phases [where os = mem_os and s = defaultSite and ord = "[]" and ctx = Background
        and lg = "[]" and w = "publicWorld\<lparr>denied := [''output/robots.txt'']\<rparr>"]
    by (simp add: mem_defs world_defs phase_defs path_defs)
  have b6: "Build mem_os [''index.html''] Background
       (defaultSite\<lparr>renderers := [''index.html'' \<mapsto> pageRenderer]\<rparr>, [], publicWorld) =
     Some (None, defaultSite\<lparr>renderers := [''index.html'' \<mapsto> pageRenderer]\<rparr>,
           [Printf ''rendering %s\<newline>'' [Str ''index.html'']],
           publicWorld\<lparr>nodes := nodes publicWorld @
             [(''output'', DirNode), (''output/robots.txt'', FileNode ''robot''),
              (''output/index.html'', FileNode ''<!doctype html>'')]\<rparr>)"
    using Build_phases [where os = mem_os
        and s = "defaultSite\<lparr>renderers := [''index.html'' \<mapsto> pageRenderer]\<rparr>"
        and ord = "[''index.html'']" and ctx = Background and lg = "[]" and w = publicWorld]
    by (simp add: mem_defs world_defs phase_defs path_defs)
  show ?thesis using r m b1 b2 b3 b4 b5 b6 by simp
qed


text \<open>A site with two pages, rendered in the order \<open>a.html\<close>, \<open>b.html\<close>: the renderer of
  the first fails, the second is rendered all the same, and the build succeeds.\<close>

theorem render_failure_isolated_witness:
  "renderLoop mem_os Background twoPages [] [] outWorld = ([], outWorld)
   \<and> render mem_os Background twoPages ''a.html'' brokenRenderer [] outWorld =
       (Some (Errorf ''template: unexpected EOF'' []),
        [Printf ''rendering %s\<newline>'' [Str ''a.html'']],
        outWorld\<lparr>nodes := nodes outWorld @ [(''output/a.html'', FileNode ''<!doctype'')]\<rparr>)
   \<and> renderLoop mem_os Background twoPages
         ([] @ (''a.html'', brokenRenderer) # [(''b.html'', pageRenderer)]) [] outWorld =
       ([Printf ''rendering %s\<newline>'' [Str ''a.html''],
         Printf ''error rendering %s: %s\<newline>''
           [Str ''a.html'', Err (Errorf ''template: unexpected EOF'' [])],
         Printf ''rendering %s\<newline>'' [Str ''b.html'']],
        outWorld\<lparr>nodes := nodes outWorld @
          [(''output/a.html'', FileNode ''<!doctype''),
           (''output/b.html'', FileNode ''<!doctype html>'')]\<rparr>)
   \<and> renderers twoPages ''b.html'' = Some pageRenderer
   \<and> ''b.html'' \<in> set [''a.html'', ''b.html'']
   \<and> (''b.html'', pageRenderer) \<in> set (rangeMap [''a.html'', ''b.html''] (renderers twoPages))
   \<and> Printf ''rendering %s\<newline>'' [Str ''b.html'']
        \<in> set (fst (renderLoop mem_os Background twoPages
              (rangeMap [''a.html'', ''b.html''] (renderers twoPages)) [] outWorld))
   \<and> Build mem_os [''a.html'', ''b.html''] Background (twoPages, [], emptyWorld) =
       Some (None, twoPages,
         [Printf ''rendering %s\<newline>'' [Str ''a.html''],
          Printf ''error rendering %s: %s\<newline>''
            [Str ''a.html'', Err (Errorf ''template: unexpected EOF'' [])],
          Printf ''rendering %s\<newline>'' [Str ''b.html'']],
         outWorld\<lparr>nodes := nodes outWorld @
           [(''output/a.html'', FileNode ''<!doctype''),
            (''output/b.html'', FileNode ''<!doctype html>'')]\<rparr>)"
proof -
  note T = render_failure_isolated [where os = mem_os and ctx = Background and s = twoPages
      and pre = "[]" and fname = "''a.html''" and renderer = brokenRenderer
      and post = "[(''b.html'', pageRenderer)]" and lg = "[]"
      and items = "rangeMap [''a.html'', ''b.html''] (renderers twoPages)"
      and ord = "[''a.html'', ''b.html'']"]
  have p: "renderLoop mem_os Background twoPages [] [] outWorld = ([], outWorld)" by simp
  have r: "render mem_os Background twoPages ''a.html'' brokenRenderer [] outWorld =
       (Some (Errorf ''template: unexpected EOF'' []),
        [Printf ''rendering %s\<newline>'' [Str ''a.html'']],
        outWorld\<lparr>nodes := nodes outWorld @ [(''output/a.html'', FileNode ''<!doctype'')]\<rparr>)"
    by (simp add: mem_defs world_defs phase_defs path_defs)
  have "renderLoop mem_os Background twoPages
         ([] @ (''a.html'', brokenRenderer) # [(''b.html'', pageRenderer)]) [] outWorld =
        renderLoop mem_os Background twoPages [(''b.html'', pageRenderer)]
          ([Printf ''rendering %s\<newline>'' [Str ''a.html'']] @
           [Printf ''error rendering %s: %s\<newline>''
             [Str ''a.html'', Err (Errorf ''template: unexpected EOF'' [])]])
          (outWorld\<lparr>nodes := nodes outWorld @ [(''output/a.html'', FileNode ''<!doctype'')]\<rparr>)"
    using T [where w = outWorld] p r by blast
  then have l: "renderLoop mem_os Background twoPages
         ([] @ (''a.html'', brokenRenderer) # [(''b.html'', pageRenderer)]) [] outWorld =
       ([Printf ''rendering %s\<newline>'' [Str ''a.html''],
         Printf ''error rendering %s: %s\<newline>''
           [Str ''a.html'', Err (Errorf ''template: unexpected EOF'' [])],
         Printf ''rendering %s\<newline>'' [Str ''b.html'']],
        outWorld\<lparr>nodes := nodes outWorld @
          [(''output/a.html'', FileNode ''<!doctype''),
           (''output/b.html'', FileNode ''<!doctype html>'')]\<rparr>)"
    by (simp add: mem_defs world_defs phase_defs path_defs)
  have g: "renderers twoPages ''b.html'' = Some pageRenderer" by (simp add: twoPages_def)
  have o: "''b.html'' \<in> set [''a.html'', ''b.html'']" by simp
  have i: "(''b.html'', pageRenderer) \<in> set (rangeMap [''a.html'', ''b.html''] (renderers twoPages))"
    using T [where w = outWorld] g o by blast
  have m: "Printf ''rendering %s\<newline>'' [Str ''b.html'']
        \<in> set (fst (renderLoop mem_os Background twoPages
              (rangeMap [''a.html'', ''b.html''] (renderers twoPages)) [] outWorld))"
    using T [where w = outWorld] i by blast
  have b: "Build mem_os [''a.html'', ''b.html''] Background (twoPages, [], emptyWorld) =
       Some (None, twoPages,
         [Printf ''rendering %s\<newline>'' [Str ''a.html''],
          Printf ''error rendering %s: %s\<newline>''
            [Str ''a.html'', Err (Errorf ''template: unexpected EOF'' [])],
          Printf ''rendering %s\<newline>'' [Str ''b.html'']],
         outWorld\<lparr>nodes := nodes outWorld @
           [(''output/a.html'', FileNode ''<!doctype''),
            (''output/b.html'', FileNode ''<!doctype html>'')]\<rparr>)"
    using T [where w = emptyWorld]
    by (simp add: mem_defs world_defs phase_defs path_defs)
  show ?thesis using p r l g o i m b by simp
qed

text \<open>A site with one page whose renderer fails after writing \<^verbatim>\<open><!doctype\<close>: the build
  succeeds and leaves \<^verbatim>\<open>output/index.html\<close> with these nine bytes.\<close>

theorem render_leaves_file_witness:
  "MkdirAll mem_os (Dir (OutputDir brokenSite @ ''/'' @ ''index.html'')) outWorld = (None, outWorld)
   \<and> Create mem_os (OutputDir brokenSite @ ''/'' @ ''index.html'') outWorld =
       (Inr (File ''output/index.html''),
        outWorld\<lparr>nodes := nodes outWorld @ [(''output/index.html'', FileNode [])]\<rparr>)
   \<and> brokenRenderer Background (SiteData.truncate brokenSite) (File ''output/index.html'')
        (outWorld\<lparr>nodes := nodes outWorld @ [(''output/index.html'', FileNode [])]\<rparr>) =
       (Some (Errorf ''template: unexpected EOF'' []),
        outWorld\<lparr>nodes := nodes outWorld @ [(''output/index.html'', FileNode ''<!doctype'')]\<rparr>)
   \<and> ReadFile mem_os ''output/index.html''
        (snd (renderLoop mem_os Background brokenSite [(''index.html'', brokenRenderer)] [] outWorld)) =
       Inr ''<!doctype''
   \<and> Build mem_os [''index.html''] Background (brokenSite, [], emptyWorld) =
       Some (None, brokenSite,
         [Printf ''rendering %s\<newline>'' [Str ''index.html''],
          Printf ''error rendering %s: %s\<newline>''
            [Str ''index.html'', Err (Errorf ''template: unexpected EOF'' [])]],
         outWorld\<lparr>nodes := nodes outWorld @ [(''output/index.html'', FileNode ''<!doctype'')]\<rparr>)"
proof -
  note T = render_leaves_file [where os = mem_os and ctx = Background and s = brokenSite
      and fname = "''index.html''" and renderer = brokenRenderer and lg = "[]" and w = outWorld
      and ord = "[''index.html'']"]
  have m: "MkdirAll mem_os (Dir (OutputDir brokenSite @ ''/'' @ ''index.html'')) outWorld =
      (None, outWorld)"
    by (simp add: mem_defs world_defs path_defs)
  have c: "Create mem_os (OutputDir brokenSite @ ''/'' @ ''index.html'') outWorld =
       (Inr (File ''output/index.html''),
        outWorld\<lparr>nodes := nodes outWorld @ [(''output/index.html'', FileNode [])]\<rparr>)"
    by (simp add: mem_defs world_defs path_defs)
  have r: "brokenRenderer Background (SiteData.truncate brokenSite) (File ''output/index.html'')
        (outWorld\<lparr>nodes := nodes outWorld @ [(''output/index.html'', FileNode [])]\<rparr>) =
       (Some (Errorf ''template: unexpected EOF'' []),
        outWorld\<lparr>nodes := nodes outWorld @ [(''output/index.html'', FileNode ''<!doctype'')]\<rparr>)"
    by (simp add: mem_defs world_defs path_defs)
  have k: "\<forall>w'. ReadFile mem_os (OutputDir brokenSite @ ''/'' @ ''index.html'')
              (snd (Close mem_os (File ''output/index.html'') w')) =
            ReadFile mem_os (OutputDir brokenSite @ ''/'' @ ''index.html'') w'"
    by (simp add: mem_os_def mem_Close_def)
  have "ReadFile mem_os (OutputDir brokenSite @ ''/'' @ ''index.html'')
        (snd (renderLoop mem_os Background brokenSite [(''index.html'', brokenRenderer)] [] outWorld)) =
      ReadFile mem_os (OutputDir brokenSite @ ''/'' @ ''index.html'')
        (outWorld\<lparr>nodes := nodes outWorld @ [(''output/index.html'', FileNode ''<!doctype'')]\<rparr>)"
    using T m c r k by blast
  then have f: "ReadFile mem_os ''output/index.html''
        (snd (renderLoop mem_os Background brokenSite [(''index.html'', brokenRenderer)] [] outWorld)) =
       Inr ''<!doctype''"
    by (simp add: mem_defs world_defs path_defs)
  have p: "RemoveAll mem_os (OutputDir brokenSite) emptyWorld = (None, emptyWorld) \<and>
          MkdirAll mem_os (OutputDir brokenSite) emptyWorld = (None, outWorld) \<and>
          runCommands mem_os Background brokenSite [] outWorld = (None, [], outWorld) \<and>
          copyAssets mem_os (brokenSite, [], outWorld) = Some (None, brokenSite, [], outWorld) \<and>
          copyPublicFiles mem_os (brokenSite, [], outWorld) = Some (None, brokenSite, [], outWorld) \<and>
          rangeMap [''index.html''] (renderers brokenSite) = [(''index.html'', brokenRenderer)]"
    by (simp add: mem_defs world_defs phase_defs path_defs)
  have "Build mem_os [''index.html''] Background (brokenSite, [], emptyWorld) =
       Some (None, brokenSite,
         [] @ [Printf ''rendering %s\<newline>'' [Str ''index.html''],
          Printf ''error rendering %s: %s\<newline>''
            [Str ''index.html'', Err (Errorf ''template: unexpected EOF'' [])]],
         snd (Close mem_os (File ''output/index.html'')
           (outWorld\<lparr>nodes := nodes outWorld @ [(''output/index.html'', FileNode ''<!doctype'')]\<rparr>)))"
    using T m c r p by blast
  then have b: "Build mem_os [''index.html''] Background (brokenSite, [], emptyWorld) =
       Some (None, brokenSite,
         [Printf ''rendering %s\<newline>'' [Str ''index.html''],
          Printf ''error rendering %s: %s\<newline>''
            [Str ''index.html'', Err (Errorf ''template: unexpected EOF'' [])]],
         outWorld\<lparr>nodes := nodes outWorld @ [(''output/index.html'', FileNode ''<!doctype'')]\<rparr>)"
    by (simp add: mem_os_def mem_Close_def)
  show ?thesis using m c r f b by simp
qed

text \<open>The build of the repository's test asset: \<^verbatim>\<open>assets/image.png\<close> holding
  \<^verbatim>\<open>image\<close>.\<close>

lemma Build_image:
  "Build mem_os [] Background (defaultSite, [], imageWorld) =
     Some (None, defaultSite\<lparr>assets := [''image.png'' \<mapsto> ''image.6105d6c.png'']\<rparr>,
           [Printf ''copying asset %s\<newline>'' [Str ''image.png'']],
           imageWorld\<lparr>nodes := nodes imageWorld @
             [(''output'', DirNode), (''output/assets'', DirNode),
              (''output/assets/image.6105d6c.png'', FileNode ''image'')]\<rparr>)"
  by (simp add: Build_def mem_defs world_defs phase_defs path_defs)

text \<open>
  \<^bold>\<open>C6\<close> says that the asset table is written only while the configuration queue is
  drained, and that no phase of \<^verbatim>\<open>Build\<close> adds an entry to it. The asset table of a
  site just constructed has no entry for \<^verbatim>\<open>image.png\<close>; the build of a directory
  \<^verbatim>\<open>assets\<close> holding that file succeeds and returns the site with the entry
  \<^verbatim>\<open>image.6105d6c.png\<close> under that name, put there by \<^verbatim>\<open>copyAssets\<close>.
\<close>

theorem Build_adds_asset:
  "assets (defaultSite :: mem Site) ''image.png'' = None
   \<and> Build mem_os [] Background (defaultSite, [], imageWorld) =
     Some (None, defaultSite\<lparr>assets := [''image.png'' \<mapsto> ''image.6105d6c.png'']\<rparr>,
           [Printf ''copying asset %s\<newline>'' [Str ''image.png'']],
           imageWorld\<lparr>nodes := nodes imageWorld @
             [(''output'', DirNode), (''output/assets'', DirNode),
              (''output/assets/image.6105d6c.png'', FileNode ''image'')]\<rparr>)
   \<and> assets (defaultSite\<lparr>assets := [''image.png'' \<mapsto> ''image.6105d6c.png'']\<rparr> :: mem Site)
        ''image.png'' = Some ''image.6105d6c.png''"
  using Build_image by (simp add: defaultSite_def)

text \<open>The same build keeps the registries; copying \<^verbatim>\<open>public/robots.txt\<close> leaves the
  site as it was; and a construction of two steps returns a site with an empty asset
  table.\<close>

theorem registries_frame_witness:
  "Build mem_os [] Background (defaultSite, [], imageWorld) =
     Some (None, defaultSite\<lparr>assets := [''image.png'' \<mapsto> ''image.6105d6c.png'']\<rparr>,
           [Printf ''copying asset %s\<newline>'' [Str ''image.png'']],
           imageWorld\<lparr>nodes := nodes imageWorld @
             [(''output'', DirNode), (''output/assets'', DirNode),
              (''output/assets/image.6105d6c.png'', FileNode ''image'')]\<rparr>)
   \<and> registriesKept (defaultSite :: mem Site)
        (defaultSite\<lparr>assets := [''image.png'' \<mapsto> ''image.6105d6c.png'']\<rparr>)
   \<and> copyPublicFiles mem_os (defaultSite, [], publicWorld\<lparr>nodes := nodes publicWorld @ [(''output'', DirNode)]\<rparr>) =
       Some (None, defaultSite, [],
             publicWorld\<lparr>nodes := nodes publicWorld @
               [(''output'', DirNode), (''output/robots.txt'', FileNode ''robot'')]\<rparr>)
   \<and> New Background stepA [] = Some (Inr defaultSite, [''A'', ''C''])
   \<and> assets (defaultSite :: string list Site) = Map.empty"
proof -
  have k: "registriesKept (defaultSite :: mem Site)
        (defaultSite\<lparr>assets := [''image.png'' \<mapsto> ''image.6105d6c.png'']\<rparr>)"
    using registries_frame [where os = mem_os and ord = "[]" and ctx = Background
        and s = defaultSite and lg = "[]" and w = imageWorld and c = forever and ?w0.0 = emptyWorld]
      Build_image
    by blast
  have p: "copyPublicFiles mem_os (defaultSite, [], publicWorld\<lparr>nodes := nodes publicWorld @ [(''output'', DirNode)]\<rparr>) =
       Some (None, defaultSite, [],
             publicWorld\<lparr>nodes := nodes publicWorld @
               [(''output'', DirNode), (''output/robots.txt'', FileNode ''robot'')]\<rparr>)"
    by (simp add: mem_defs world_defs phase_defs path_defs)
  have n: "New Background stepA [] = Some (Inr defaultSite, [''A'', ''C''])"
    by (simp add: New_def invoke_def stepA_def stepC_def namedStep_def Configure_def
        defaultSite_def drain_Cons drain_Nil)
  have a: "assets (defaultSite :: string list Site) = Map.empty"
    using registries_frame [where os = mem_os and ord = "[]" and ctx = Background
        and s = defaultSite and lg = "[]" and w = imageWorld and c = stepA and ?w0.0 = "[]"] n
    by blast
  show ?thesis using Build_image k p n a by simp
qed

end
